theory Spec2Isabelle
  imports Complex_Main
begin

section \<open>Power distributor: overload acceptance and proportional distribution\<close>

text \<open>
  A shallow embedding of \<^verbatim>\<open>custom_components/power_distributor/sensor.py\<close>.

  Modelling conventions.
  \<^item> Python floats are modelled as \<open>real\<close>: rounding error, infinities and NaN are outside
    the model. A float division raises \<open>ZeroDivisionError\<close> on a zero divisor; every
    division of the source is therefore written with \<open>fdiv\<close>, which returns the error
    as a value.
  \<^item> A \<^verbatim>\<open>datetime\<close> is a real number of seconds on the wall clock, so that
    \<^verbatim>\<open>(a - b).total_seconds()\<close> is \<open>a - b\<close>.
  \<^item> \<^verbatim>\<open>datetime.now()\<close> is read from the environment. \<open>update_oa_state\<close> takes the
    value of its own reading as the argument \<open>now\<close>; \<open>run_distribution\<close> takes a
    \<open>clock\<close>, where \<open>clock k\<close> is the value of the \<open>k\<close>-th reading made during the call
    (reading 0 by \<open>run_distribution\<close> itself, reading 1 by the combined update, reading
    \<open>i + 2\<close> by the update of unit \<open>i\<close>).
  \<^item> The dictionaries and attributes mutated in place are passed in and returned; a
    function that may raise returns the state as it stands at the raise.
\<close>

subsection \<open>Errors and float division\<close>

datatype py_error = ZeroDivisionError | TypeError | IndexError

definition fdiv :: "real \<Rightarrow> real \<Rightarrow> py_error + real" where
  "fdiv a b = (if b = 0 then Inl ZeroDivisionError else Inr (a / b))"

text \<open>\<^verbatim>\<open>round(x, 2)\<close>: to the nearest hundredth, an exact tie going to the even neighbour.\<close>

definition round2 :: "real \<Rightarrow> real" where
  "round2 x =
     (let y = x * 100; f = \<lfloor>y\<rfloor>; d = y - of_int f
      in (if d < 1 / 2 then of_int f
          else if d > 1 / 2 then of_int (f + 1)
          else if even f then of_int f else of_int (f + 1)) / 100)"

subsection \<open>Configuration (const.py) and state\<close>

type_synonym datetime = real

record Config =
  entity_combined_load :: string
  entity_unit_1 :: string
  entity_unit_2 :: string
  entity_unit_3 :: string
  entity_unit_4 :: string
  max_combined_load :: real
  max_individual_load :: real
  delay_5_percent :: real
  delay_20_percent :: real
  ramp_5_percent :: real
  ramp_20_percent :: real
  recovery_time_fast :: real
  recovery_time_slow :: real

definition NUM_CONSUMERS :: nat where
  "NUM_CONSUMERS = 4"

definition SCAN_INTERVAL_SECONDS :: real where
  "SCAN_INTERVAL_SECONDS = 5"

text \<open>The default values of const.py, with the five source entities named.\<close>

definition default_config :: Config where
  "default_config =
     \<lparr> entity_combined_load = ''sensor.combined'',
       entity_unit_1 = ''sensor.unit_1'',
       entity_unit_2 = ''sensor.unit_2'',
       entity_unit_3 = ''sensor.unit_3'',
       entity_unit_4 = ''sensor.unit_4'',
       max_combined_load = 16,
       max_individual_load = 4,
       delay_5_percent = 10,
       delay_20_percent = 2,
       ramp_5_percent = 10,
       ramp_20_percent = 5,
       recovery_time_fast = 20,
       recovery_time_slow = 60 \<rparr>"

text \<open>One overload-acceptance dictionary: keys \<^verbatim>\<open>oa, ramp_start, init_factor, ramp_dur\<close>.\<close>

record OAState =
  oa :: real
  ramp_start :: "datetime option"
  init_factor :: real
  ramp_dur :: "real option"

text \<open>The attributes of \<^verbatim>\<open>PowerManagement\<close> that change after construction.\<close>

record EngineState =
  combined_oa :: real
  combined_ramp_start :: "datetime option"
  combined_ramp_dur :: "real option"
  combined_init_factor :: real
  consumer_oa_states :: "OAState list"
  last_update_time :: datetime

text \<open>\<^verbatim>\<open>PowerManagement.__init__\<close>: \<open>t0\<close> is the clock reading at construction.\<close>

definition init_engine :: "datetime \<Rightarrow> EngineState" where
  "init_engine t0 =
     \<lparr> combined_oa = 100,
       combined_ramp_start = None,
       combined_ramp_dur = None,
       combined_init_factor = 1,
       consumer_oa_states =
         replicate NUM_CONSUMERS \<lparr> oa = 100, ramp_start = None, init_factor = 1, ramp_dur = None \<rparr>,
       last_update_time = t0 \<rparr>"

subsection \<open>Interpolation and timing\<close>

definition interpolate_value :: "real \<Rightarrow> real \<Rightarrow> real \<Rightarrow> real \<Rightarrow> real \<Rightarrow> py_error + real" where
  "interpolate_value x x1 y1 x2 y2 =
     (if x1 = x2 then Inr y1
      else if x \<le> x1 then Inr y1
      else if x \<ge> x2 then Inr y2
      else case fdiv ((x - x1) * (y2 - y1)) (x2 - x1) of
             Inl e \<Rightarrow> Inl e
           | Inr q \<Rightarrow> Inr (y1 + q))"

definition calculate_oa_timing :: "Config \<Rightarrow> real \<Rightarrow> py_error + (real \<times> real)" where
  "calculate_oa_timing cfg overload_ratio =
     (let ratio = min (120 / 100) overload_ratio
      in case interpolate_value ratio (105 / 100) (delay_5_percent cfg) (120 / 100) (delay_20_percent cfg) of
           Inl e \<Rightarrow> Inl e
         | Inr T_delay \<Rightarrow>
             (case interpolate_value ratio (105 / 100) (ramp_5_percent cfg) (120 / 100) (ramp_20_percent cfg) of
                Inl e \<Rightarrow> Inl e
              | Inr T_ramp \<Rightarrow> Inr (T_delay, T_ramp)))"

definition calculate_recovery_time :: "Config \<Rightarrow> real \<Rightarrow> py_error + real" where
  "calculate_recovery_time cfg load_ratio =
     interpolate_value load_ratio (80 / 100) (recovery_time_fast cfg) 1 (recovery_time_slow cfg)"

subsection \<open>The overload-acceptance update\<close>

text \<open>
  The rate of change of the buffer: \<^verbatim>\<open>100.0 / T if T > 0 else 100.0\<close>.
\<close>

definition rate_per_min :: "real \<Rightarrow> py_error + real" where
  "rate_per_min T = (if T > 0 then fdiv 100 T else Inr 100)"

text \<open>The limiting branch of \<^verbatim>\<open>_update_oa_state\<close> (\<^verbatim>\<open>state['oa'] <= 0\<close>).\<close>

definition ramp_down :: "datetime \<Rightarrow> real \<Rightarrow> real \<Rightarrow> OAState \<Rightarrow> (py_error + real) \<times> OAState" where
  "ramp_down now overload_ratio T_ramp st1 =
     (let st2 = (if ramp_start st1 = None
                 then st1\<lparr>ramp_start := Some now, ramp_dur := Some T_ramp, init_factor := overload_ratio\<rparr>
                 else st1)
      in case ramp_start st2 of
           None \<Rightarrow> (Inl TypeError, st2)
         | Some t0 \<Rightarrow>
             (let time_elapsed_min = (now - t0) / 60
              in case ramp_dur st2 of
                   None \<Rightarrow> (Inl TypeError, st2)
                 | Some d \<Rightarrow>
                     (case fdiv time_elapsed_min d of
                        Inl e \<Rightarrow> (Inl e, st2)
                      | Inr q \<Rightarrow>
                          (let ramp_progress = min 1 q;
                               current_limit_factor =
                                 init_factor st2 - (init_factor st2 - 1) * ramp_progress
                           in if ramp_progress \<ge> 1 then (Inr 1, st2\<lparr>oa := 0\<rparr>)
                              else (Inr current_limit_factor, st2)))))"

definition update_oa_state ::
  "Config \<Rightarrow> datetime \<Rightarrow> real \<Rightarrow> real \<Rightarrow> OAState \<Rightarrow> real \<Rightarrow> (py_error + real) \<times> OAState" where
  "update_oa_state cfg now current_load reference_limit st time_delta_min =
     (if reference_limit \<le> 0 then (Inr 1, st)
      else case fdiv current_load reference_limit of
        Inl e \<Rightarrow> (Inl e, st)
      | Inr overload_ratio \<Rightarrow>
          (if current_load \<le> reference_limit then
             (let st1 = st\<lparr>ramp_start := None\<rparr>
              in case fdiv current_load reference_limit of
                   Inl e \<Rightarrow> (Inl e, st1)
                 | Inr q \<Rightarrow>
                     (let load_ratio = max 0 (min 1 q)
                      in case calculate_recovery_time cfg load_ratio of
                           Inl e \<Rightarrow> (Inl e, st1)
                         | Inr T_recover \<Rightarrow>
                             (case rate_per_min T_recover of
                                Inl e \<Rightarrow> (Inl e, st1)
                              | Inr rate_rise_per_min \<Rightarrow>
                                  (Inr (max 1 overload_ratio),
                                   st1\<lparr>oa := min 100 (oa st1 + rate_rise_per_min * time_delta_min)\<rparr>))))
           else
             (case calculate_oa_timing cfg overload_ratio of
                Inl e \<Rightarrow> (Inl e, st)
              | Inr (T_delay, T_ramp) \<Rightarrow>
                  (case rate_per_min T_delay of
                     Inl e \<Rightarrow> (Inl e, st)
                   | Inr rate_consume_per_min \<Rightarrow>
                       (let st1 = st\<lparr>oa := max 0 (oa st - rate_consume_per_min * time_delta_min)\<rparr>
                        in if oa st1 > 0 then (Inr overload_ratio, st1\<lparr>ramp_start := None\<rparr>)
                           else ramp_down now overload_ratio T_ramp st1)))))"

subsection \<open>The distribution step\<close>

text \<open>
  The loop over \<^verbatim>\<open>enumerate(L_units_actual)\<close>: returns the lists
  \<^verbatim>\<open>pre_capped_requests\<close> and \<^verbatim>\<open>individual_oa_percents\<close>, and the consumer dictionaries as
  mutated so far. \<^verbatim>\<open>self._consumer_oa_states[i]\<close> raises \<open>IndexError\<close> out of range.
\<close>

fun units_loop ::
  "Config \<Rightarrow> (nat \<Rightarrow> datetime) \<Rightarrow> real \<Rightarrow> nat \<Rightarrow> real list \<Rightarrow> OAState list
     \<Rightarrow> (py_error + (real list \<times> real list)) \<times> OAState list" where
  "units_loop cfg clock time_delta_min i [] sts = (Inr ([], []), sts)"
| "units_loop cfg clock time_delta_min i (requested_load # rest) sts =
     (if i \<ge> length sts then (Inl IndexError, sts)
      else case update_oa_state cfg (clock (i + 2)) requested_load (max_individual_load cfg)
                  (sts ! i) time_delta_min of
        (Inl e, consumer_state) \<Rightarrow> (Inl e, sts[i := consumer_state])
      | (Inr individual_limit_factor, consumer_state) \<Rightarrow>
          (let sts1 = sts[i := consumer_state];
               percent = round2 (oa consumer_state);
               consumer_oa_cap = max_individual_load cfg * individual_limit_factor;
               pre_capped_request = min requested_load consumer_oa_cap
           in case units_loop cfg clock time_delta_min (Suc i) rest sts1 of
                (Inl e, sts2) \<Rightarrow> (Inl e, sts2)
              | (Inr (pre_capped_requests, individual_oa_percents), sts2) \<Rightarrow>
                  (Inr (pre_capped_request # pre_capped_requests, percent # individual_oa_percents),
                   sts2)))"

text \<open>Step 3 of \<^verbatim>\<open>run_distribution\<close>: the final limits.\<close>

definition proportional_limits :: "real \<Rightarrow> real list \<Rightarrow> py_error + real list" where
  "proportional_limits X_managed_capacity pre_capped_requests =
     (let L_units_pre_capped_total = sum_list pre_capped_requests
      in if X_managed_capacity \<ge> L_units_pre_capped_total then Inr pre_capped_requests
         else if L_units_pre_capped_total > 0 then
           (case fdiv X_managed_capacity L_units_pre_capped_total of
              Inl e \<Rightarrow> Inl e
            | Inr scaling_factor \<Rightarrow> Inr (map (\<lambda>load. load * scaling_factor) pre_capped_requests))
         else Inr (replicate NUM_CONSUMERS 0))"

text \<open>
  The local variables of \<^verbatim>\<open>run_distribution\<close> at its \<^verbatim>\<open>return\<close>, before rounding.
\<close>

record Locals =
  current_combined_limit :: real
  X_managed_capacity :: real
  pre_capped_requests :: "real list"
  L_units_pre_capped_total :: real
  final_limits :: "real list"
  individual_oa_percents :: "real list"

definition run_distribution_locals ::
  "Config \<Rightarrow> (nat \<Rightarrow> datetime) \<Rightarrow> EngineState \<Rightarrow> real \<Rightarrow> real list
     \<Rightarrow> (py_error + Locals) \<times> EngineState" where
  "run_distribution_locals cfg clock s L_combined_actual L_units_actual =
     (let now = clock 0;
          time_delta_sec = now - last_update_time s;
          time_delta_min = time_delta_sec / 60;
          s1 = s\<lparr>last_update_time := now\<rparr>;
          L_units_total = sum_list L_units_actual;
          L_unmanaged_actual = max 0 (L_combined_actual - L_units_total);
          combined_oa_state =
            \<lparr> oa = combined_oa s1, ramp_start = combined_ramp_start s1,
              init_factor = combined_init_factor s1, ramp_dur = combined_ramp_dur s1 \<rparr>
      in case update_oa_state cfg (clock 1) L_combined_actual (max_combined_load cfg)
                combined_oa_state time_delta_min of
        (Inl e, _) \<Rightarrow> (Inl e, s1)
      | (Inr combined_limit_factor, cst) \<Rightarrow>
          (let s2 = s1\<lparr>combined_oa := oa cst, combined_ramp_start := ramp_start cst,
                       combined_init_factor := init_factor cst, combined_ramp_dur := ramp_dur cst\<rparr>;
               limit = (if combined_limit_factor > 1 then L_combined_actual
                        else max_combined_load cfg * combined_limit_factor);
               capacity = max 0 (limit - L_unmanaged_actual)
           in case units_loop cfg clock time_delta_min 0 L_units_actual (consumer_oa_states s2) of
                (Inl e, sts) \<Rightarrow> (Inl e, s2\<lparr>consumer_oa_states := sts\<rparr>)
              | (Inr (pre, percents), sts) \<Rightarrow>
                  (let s3 = s2\<lparr>consumer_oa_states := sts\<rparr>
                   in case proportional_limits capacity pre of
                        Inl e \<Rightarrow> (Inl e, s3)
                      | Inr final \<Rightarrow>
                          (Inr \<lparr> current_combined_limit = limit,
                                 X_managed_capacity = capacity,
                                 pre_capped_requests = pre,
                                 L_units_pre_capped_total = sum_list pre,
                                 final_limits = final,
                                 individual_oa_percents = percents \<rparr>,
                           s3))))"

text \<open>The dictionary returned by \<^verbatim>\<open>run_distribution\<close>.\<close>

record DistributionResult =
  combined_oa_percent :: real
  current_combined_limit_A :: real
  available_managed_capacity_A :: real
  individual_oa_percents_out :: "real list"
  final_limits_A :: "real list"
  units_pre_capped_demand_A :: "real list"

definition run_distribution ::
  "Config \<Rightarrow> (nat \<Rightarrow> datetime) \<Rightarrow> EngineState \<Rightarrow> real \<Rightarrow> real list
     \<Rightarrow> (py_error + DistributionResult) \<times> EngineState" where
  "run_distribution cfg clock s L_combined_actual L_units_actual =
     (case run_distribution_locals cfg clock s L_combined_actual L_units_actual of
        (Inl e, s') \<Rightarrow> (Inl e, s')
      | (Inr l, s') \<Rightarrow>
          (Inr \<lparr> combined_oa_percent = round2 (combined_oa s'),
                 current_combined_limit_A = round2 (current_combined_limit l),
                 available_managed_capacity_A = round2 (X_managed_capacity l),
                 individual_oa_percents_out = individual_oa_percents l,
                 final_limits_A = map round2 (final_limits l),
                 units_pre_capped_demand_A = map round2 (pre_capped_requests l) \<rparr>,
           s'))"

subsection \<open>Reading the source sensors and the controller\<close>

text \<open>A Home Assistant \<^verbatim>\<open>State\<close> object: only its \<^verbatim>\<open>state\<close> string is read.\<close>

record State =
  state :: string

definition STATE_UNAVAILABLE :: string where
  "STATE_UNAVAILABLE = ''unavailable''"

definition STATE_UNKNOWN :: string where
  "STATE_UNKNOWN = ''unknown''"

text \<open>
  \<^verbatim>\<open>get_float_state\<close>. Python's built-in \<^verbatim>\<open>float\<close> is the parameter \<open>pyfloat\<close>: on a
  string it returns a float or raises \<open>ValueError\<close>, which the \<^verbatim>\<open>except\<close> clause turns
  into \<open>None\<close>; \<open>pyfloat v = None\<close> stands for that raise.
\<close>

definition get_float_state :: "(string \<Rightarrow> real option) \<Rightarrow> State option \<Rightarrow> real option" where
  "get_float_state pyfloat st =
     (case st of
        None \<Rightarrow> None
      | Some x \<Rightarrow>
          (if state x \<in> {STATE_UNAVAILABLE, STATE_UNKNOWN} then None
           else pyfloat (state x)))"

definition unit_keys :: "Config \<Rightarrow> string list" where
  "unit_keys cfg = [entity_unit_1 cfg, entity_unit_2 cfg, entity_unit_3 cfg, entity_unit_4 cfg]"

text \<open>The two entries of \<^verbatim>\<open>hass.data[DOMAIN]\<close> that the controller writes.\<close>

record ControllerData =
  manager :: EngineState
  latest_results :: "DistributionResult option"

datatype outcome = Halted | Completed | Failed py_error

definition gather_units :: "(string \<Rightarrow> real option) \<Rightarrow> Config \<Rightarrow> (string \<rightharpoonup> State) \<Rightarrow> real list" where
  "gather_units pyfloat cfg states =
     map (\<lambda>entity_key. case get_float_state pyfloat (states entity_key) of
                          None \<Rightarrow> 0
                        | Some load \<Rightarrow> load)
         (unit_keys cfg)"

text \<open>
  \<^verbatim>\<open>async_run_controller\<close>: \<open>Halted\<close> is the early return after the warning, \<open>Failed\<close> the
  exception caught and logged, \<open>Completed\<close> the publication of a new result. The log and
  the requests to the sensor entities to refresh are not part of the model.
\<close>

definition async_run_controller ::
  "(string \<Rightarrow> real option) \<Rightarrow> Config \<Rightarrow> (nat \<Rightarrow> datetime) \<Rightarrow> (string \<rightharpoonup> State)
     \<Rightarrow> ControllerData \<Rightarrow> outcome \<times> ControllerData" where
  "async_run_controller pyfloat cfg clock states hdata =
     (let L_combined_actual = get_float_state pyfloat (states (entity_combined_load cfg));
          L_units_actual = gather_units pyfloat cfg states
      in case L_combined_actual of
           None \<Rightarrow> (Halted, hdata)
         | Some c \<Rightarrow>
             (case run_distribution cfg clock (manager hdata) c L_units_actual of
                (Inl e, m) \<Rightarrow> (Failed e, hdata\<lparr>manager := m\<rparr>)
              | (Inr results, m) \<Rightarrow>
                  (Completed, hdata\<lparr>manager := m, latest_results := Some results\<rparr>)))"

subsection \<open>Well-formed and reachable states\<close>

text \<open>The dictionary \<^verbatim>\<open>combined_oa_state\<close> that \<^verbatim>\<open>run_distribution\<close> builds from the four
  attributes of the combined circuit.\<close>

definition combined_state :: "EngineState \<Rightarrow> OAState" where
  "combined_state s =
     \<lparr> oa = combined_oa s, ramp_start = combined_ramp_start s,
       init_factor = combined_init_factor s, ramp_dur = combined_ramp_dur s \<rparr>"

text \<open>
  What every update keeps true of one overload-acceptance dictionary: the buffer is a
  percentage, the captured factor is at least 1, and a recorded ramp start comes with a
  recorded duration and an exhausted buffer.
\<close>

definition oa_inv :: "OAState \<Rightarrow> bool" where
  "oa_inv st \<longleftrightarrow>
     0 \<le> oa st \<and> oa st \<le> 100 \<and> 1 \<le> init_factor st \<and>
     (ramp_start st \<noteq> None \<longrightarrow> oa st = 0 \<and> ramp_dur st \<noteq> None)"

text \<open>A dictionary with a ramp start also has a ramp duration, and that duration is not 0.\<close>

definition ramp_recorded :: "OAState \<Rightarrow> bool" where
  "ramp_recorded st \<longleftrightarrow>
     ramp_start st = None \<or> (ramp_dur st \<noteq> None \<and> ramp_dur st \<noteq> Some 0)"

definition engine_inv :: "EngineState \<Rightarrow> bool" where
  "engine_inv s \<longleftrightarrow>
     oa_inv (combined_state s) \<and> length (consumer_oa_states s) = NUM_CONSUMERS \<and>
     list_all oa_inv (consumer_oa_states s)"

text \<open>
  The engine states that arise from construction by ticks on which the wall clock has
  not gone backwards (\<open>dt \<ge> 0\<close>), whatever the loads and whether or not the tick raises.
\<close>

inductive reachable :: "Config \<Rightarrow> EngineState \<Rightarrow> bool" for cfg :: Config where
  start: "reachable cfg (init_engine t0)"
| tick: "reachable cfg s \<Longrightarrow> last_update_time s \<le> clock 0 \<Longrightarrow>
         reachable cfg (snd (run_distribution cfg clock s L_combined_actual L_units_actual))"

subsection \<open>Configurations used in the examples\<close>

text \<open>The defaults with both ramp durations set to zero; the configuration flow accepts
  it, since it checks only that the two load limits are positive.\<close>

definition zero_ramp_config :: Config where
  "zero_ramp_config = default_config\<lparr>ramp_5_percent := 0, ramp_20_percent := 0\<rparr>"

text \<open>The defaults with the delay and recovery durations set to zero.\<close>

definition zero_delay_config :: Config where
  "zero_delay_config =
     default_config\<lparr>delay_5_percent := 0, delay_20_percent := 0,
                    recovery_time_fast := 0, recovery_time_slow := 0\<rparr>"

text \<open>A clock on which every reading made during one tick returns the same time \<open>t\<close>.\<close>

definition clock_at :: "datetime \<Rightarrow> nat \<Rightarrow> datetime" where
  "clock_at t k = t"

text \<open>A clock whose first \<open>n\<close> readings of a tick return \<open>t\<close> and whose later readings
  return \<open>t'\<close>.\<close>

definition clock_then :: "nat \<Rightarrow> datetime \<Rightarrow> datetime \<Rightarrow> nat \<Rightarrow> datetime" where
  "clock_then n t t' k = (if k < n then t else t')"

text \<open>
  The default engine after one tick read ten minutes after construction, with 20 A on the
  combined circuit, three units at their rated 4 A and one idle: the combined buffer is
  exhausted and a ramp has started.
\<close>

definition overloaded_engine :: EngineState where
  "overloaded_engine =
     snd (run_distribution default_config (clock_at 600) (init_engine 0) 20 [4, 4, 4, 0])"

text \<open>The same loads read again five minutes later, when the ramp is complete.\<close>

definition scarce_tick :: "(py_error + Locals) \<times> EngineState" where
  "scarce_tick = run_distribution_locals default_config (clock_at 900) overloaded_engine 20 [4, 4, 4, 0]"

text \<open>
  A stand-in for \<^verbatim>\<open>float\<close> on the state strings of the examples: it parses the two
  numerals that occur there and rejects every other string.
\<close>

definition sample_float :: "string \<Rightarrow> real option" where
  "sample_float v =
     (if v = ''17.0'' then Some 17 else if v = ''3.5'' then Some (7 / 2) else None)"

text \<open>Contents of \<^verbatim>\<open>hass.states\<close> for the examples: the combined sensor unavailable;
  the combined sensor at 17 A with unit 2 unavailable and unit 4 missing; and the combined
  sensor and unit 2 reporting text that is not a number.\<close>

definition states_combined_unavailable :: "string \<rightharpoonup> State" where
  "states_combined_unavailable =
     map_of [(''sensor.combined'', \<lparr>state = ''unavailable''\<rparr>),
             (''sensor.unit_1'', \<lparr>state = ''3.5''\<rparr>),
             (''sensor.unit_2'', \<lparr>state = ''3.5''\<rparr>),
             (''sensor.unit_3'', \<lparr>state = ''3.5''\<rparr>),
             (''sensor.unit_4'', \<lparr>state = ''3.5''\<rparr>)]"

definition states_unit_unavailable :: "string \<rightharpoonup> State" where
  "states_unit_unavailable =
     map_of [(''sensor.combined'', \<lparr>state = ''17.0''\<rparr>),
             (''sensor.unit_1'', \<lparr>state = ''3.5''\<rparr>),
             (''sensor.unit_2'', \<lparr>state = ''unavailable''\<rparr>),
             (''sensor.unit_3'', \<lparr>state = ''3.5''\<rparr>)]"

definition states_not_numeric :: "string \<rightharpoonup> State" where
  "states_not_numeric =
     map_of [(''sensor.combined'', \<lparr>state = ''seventeen''\<rparr>),
             (''sensor.unit_1'', \<lparr>state = ''3.5''\<rparr>),
             (''sensor.unit_2'', \<lparr>state = ''n/a''\<rparr>),
             (''sensor.unit_3'', \<lparr>state = ''3.5''\<rparr>),
             (''sensor.unit_4'', \<lparr>state = ''3.5''\<rparr>)]"

text \<open>The controller's data right after \<^verbatim>\<open>async_setup_entry\<close>: a fresh engine and no
  published result.\<close>

definition fresh_data :: ControllerData where
  "fresh_data = \<lparr> manager = init_engine 0, latest_results = None \<rparr>"

text \<open>A fresh overload-acceptance dictionary, as \<^verbatim>\<open>__init__\<close> creates it.\<close>

definition fresh_oa :: OAState where
  "fresh_oa = \<lparr> oa = 100, ramp_start = None, init_factor = 1, ramp_dur = None \<rparr>"

section \<open>Basic facts about the update\<close>

lemma interpolate_value_not_Inl [simp]: "interpolate_value x x1 y1 x2 y2 \<noteq> Inl e"
  by (simp add: interpolate_value_def fdiv_def)

lemma calculate_oa_timing_not_Inl [simp]: "calculate_oa_timing cfg r \<noteq> Inl e"
  by (simp add: calculate_oa_timing_def Let_def split: sum.splits)

lemma calculate_recovery_time_not_Inl [simp]: "calculate_recovery_time cfg r \<noteq> Inl e"
  by (simp add: calculate_recovery_time_def)

lemma rate_per_min_not_Inl [simp]: "rate_per_min T \<noteq> Inl e"
  by (simp add: rate_per_min_def fdiv_def)

lemma rate_per_min_pos: "rate_per_min T = Inr r \<Longrightarrow> 0 < r"
  by (auto simp add: rate_per_min_def fdiv_def split: if_splits)

lemma update_oa_state_nonpositive_limit:
  "reference_limit \<le> 0 \<Longrightarrow> update_oa_state cfg now load reference_limit st dt = (Inr 1, st)"
  by (simp add: update_oa_state_def)

lemma update_oa_state_recover:
  assumes "0 < reference_limit" "load \<le> reference_limit"
  shows "\<exists>rate. 0 < rate \<and> update_oa_state cfg now load reference_limit st dt =
         (Inr (max 1 (load / reference_limit)),
          st\<lparr>ramp_start := None, oa := min 100 (oa st + rate * dt)\<rparr>)"
  using assms
  by (auto simp add: update_oa_state_def fdiv_def Let_def split: sum.splits dest: rate_per_min_pos)

lemma update_oa_state_overload:
  assumes "0 < reference_limit" "reference_limit < load"
  shows "\<exists>rate T_ramp. 0 < rate \<and> update_oa_state cfg now load reference_limit st dt =
         (if 0 < oa st - rate * dt
          then (Inr (load / reference_limit), st\<lparr>oa := oa st - rate * dt, ramp_start := None\<rparr>)
          else ramp_down now (load / reference_limit) T_ramp (st\<lparr>oa := 0\<rparr>))"
proof -
  obtain T_delay T_ramp where T: "calculate_oa_timing cfg (load / reference_limit) = Inr (T_delay, T_ramp)"
    by (cases "calculate_oa_timing cfg (load / reference_limit)") auto
  obtain rate where r: "rate_per_min T_delay = Inr rate" "0 < rate"
    by (cases "rate_per_min T_delay") (auto dest: rate_per_min_pos)
  have "update_oa_state cfg now load reference_limit st dt =
         (if 0 < oa st - rate * dt
          then (Inr (load / reference_limit), st\<lparr>oa := oa st - rate * dt, ramp_start := None\<rparr>)
          else ramp_down now (load / reference_limit) T_ramp (st\<lparr>oa := 0\<rparr>))"
    using assms by (simp add: update_oa_state_def fdiv_def Let_def T r max_def)
  with r show ?thesis by blast
qed

lemma update_oa_state_cases:
  assumes "0 < reference_limit"
  obtains (recover) rate where "load \<le> reference_limit" "0 < rate"
      "update_oa_state cfg now load reference_limit st dt =
         (Inr (max 1 (load / reference_limit)),
          st\<lparr>ramp_start := None, oa := min 100 (oa st + rate * dt)\<rparr>)"
  | (accept) rate where "reference_limit < load" "0 < rate" "0 < oa st - rate * dt"
      "update_oa_state cfg now load reference_limit st dt =
         (Inr (load / reference_limit), st\<lparr>oa := oa st - rate * dt, ramp_start := None\<rparr>)"
  | (limit) rate T_ramp where "reference_limit < load" "0 < rate" "oa st - rate * dt \<le> 0"
      "update_oa_state cfg now load reference_limit st dt =
         ramp_down now (load / reference_limit) T_ramp (st\<lparr>oa := 0\<rparr>)"
proof (cases "load \<le> reference_limit")
  case True
  with assms update_oa_state_recover [of reference_limit load cfg now st dt] recover
  show ?thesis by blast
next
  case False
  then have lt: "reference_limit < load" by simp
  from update_oa_state_overload [OF assms lt, of cfg now st dt]
  obtain rate T_ramp where r: "0 < rate" and u: "update_oa_state cfg now load reference_limit st dt =
         (if 0 < oa st - rate * dt
          then (Inr (load / reference_limit), st\<lparr>oa := oa st - rate * dt, ramp_start := None\<rparr>)
          else ramp_down now (load / reference_limit) T_ramp (st\<lparr>oa := 0\<rparr>))" by blast
  show ?thesis
  proof (cases "0 < oa st - rate * dt")
    case True
    with u accept [OF lt r] show ?thesis by simp
  next
    case neg: False
    with u limit [OF lt r] show ?thesis by simp
  qed
qed


subsection \<open>What one update preserves\<close>

lemma ramp_factor_ge_1: "1 \<le> f0 \<Longrightarrow> p \<le> 1 \<Longrightarrow> (1::real) \<le> f0 - (f0 - 1) * p"
proof -
  assume a: "1 \<le> f0" "p \<le> 1"
  have "0 \<le> (f0 - 1) * (1 - p)" using a by (intro mult_nonneg_nonneg) simp_all
  then show ?thesis by (simp add: algebra_simps)
qed

lemma overload_ratio_gt_1: "0 < (b::real) \<Longrightarrow> b < a \<Longrightarrow> 1 < a / b"
  by simp

lemma ramp_down_inv:
  assumes "oa st1 = 0" "1 \<le> init_factor st1" "1 \<le> r"
    and "ramp_start st1 \<noteq> None \<longrightarrow> ramp_dur st1 \<noteq> None"
  shows "oa_inv (snd (ramp_down now r T st1))"
  using assms
  by (auto simp add: ramp_down_def oa_inv_def Let_def fdiv_def split: option.splits sum.splits if_splits)

lemma ramp_down_factor_ge_1:
  assumes "1 \<le> init_factor st1" "1 \<le> r" "ramp_down now r T st1 = (Inr f, st')"
  shows "1 \<le> f"
  using assms
  by (auto simp add: ramp_down_def Let_def ramp_factor_ge_1
           split: option.splits sum.splits if_splits)

lemma ramp_down_init_factor:
  assumes "1 \<le> init_factor st1" "1 \<le> r"
  shows "1 \<le> init_factor (snd (ramp_down now r T st1))"
  using assms
  by (auto simp add: ramp_down_def Let_def fdiv_def split: option.splits sum.splits if_splits)

lemma update_oa_state_inv:
  assumes "0 \<le> dt" "oa_inv st"
  shows "oa_inv (snd (update_oa_state cfg now load reference_limit st dt))"
proof (cases "reference_limit \<le> 0")
  case True
  with assms show ?thesis by (simp add: update_oa_state_nonpositive_limit)
next
  case False
  then have pos: "0 < reference_limit" by simp
  from pos show ?thesis
  proof (cases rule: update_oa_state_cases [where load = load and st = st and dt = dt and cfg = cfg and now = now])
    case (recover rate)
    have "0 \<le> rate * dt" using recover(2) assms(1) by simp
    with assms(2) show ?thesis unfolding recover(3) by (simp add: oa_inv_def)
  next
    case (accept rate)
    have "0 \<le> rate * dt" using accept(2) assms(1) by simp
    with assms(2) accept(3) show ?thesis unfolding accept(4) by (simp add: oa_inv_def)
  next
    case (limit rate T_ramp)
    have "1 \<le> load / reference_limit" using pos limit(1) by simp
    with assms(2) show ?thesis unfolding limit(4)
      by (intro ramp_down_inv) (simp_all add: oa_inv_def)
  qed
qed

lemma update_oa_state_init_factor:
  assumes "1 \<le> init_factor st"
  shows "1 \<le> init_factor (snd (update_oa_state cfg now load reference_limit st dt))"
proof (cases "reference_limit \<le> 0")
  case True
  with assms show ?thesis by (simp add: update_oa_state_nonpositive_limit)
next
  case False
  then have pos: "0 < reference_limit" by simp
  from pos show ?thesis
  proof (cases rule: update_oa_state_cases [where load = load and st = st and dt = dt and cfg = cfg and now = now])
    case (recover rate)
    with assms show ?thesis by simp
  next
    case (accept rate)
    with assms show ?thesis by simp
  next
    case (limit rate T_ramp)
    have "1 \<le> load / reference_limit" using pos limit(1) by simp
    with assms show ?thesis unfolding limit(4)
      by (intro ramp_down_init_factor) simp_all
  qed
qed

lemma update_oa_state_factor_ge_1:
  assumes "1 \<le> init_factor st"
    and "update_oa_state cfg now load reference_limit st dt = (Inr f, st')"
  shows "1 \<le> f"
proof (cases "reference_limit \<le> 0")
  case True
  with assms show ?thesis by (simp add: update_oa_state_nonpositive_limit)
next
  case False
  then have pos: "0 < reference_limit" by simp
  from pos show ?thesis
  proof (cases rule: update_oa_state_cases [where load = load and st = st and dt = dt and cfg = cfg and now = now])
    case (recover rate)
    with assms show ?thesis by auto
  next
    case (accept rate)
    with assms pos show ?thesis by auto
  next
    case (limit rate T_ramp)
    have "1 \<le> load / reference_limit" using pos limit(1) by simp
    with assms limit(4) show ?thesis
      using ramp_down_factor_ge_1 [of "st\<lparr>oa := 0\<rparr>" "load / reference_limit" now T_ramp f st']
      by simp
  qed
qed

subsection \<open>The loop over the units and the engine invariant\<close>

lemma units_loop_lift:
  assumes step: "\<And>now load st. I st \<Longrightarrow>
            I (snd (update_oa_state cfg now load (max_individual_load cfg) st dt)) \<and>
            R st (snd (update_oa_state cfg now load (max_individual_load cfg) st dt))"
    and refl: "\<And>st. R st st"
    and trans: "\<And>a b c. R a b \<Longrightarrow> R b c \<Longrightarrow> R a c"
  shows "list_all I sts \<Longrightarrow>
         list_all I (snd (units_loop cfg clock dt i us sts)) \<and>
         list_all2 R sts (snd (units_loop cfg clock dt i us sts))"
proof (induction us arbitrary: i sts)
  case Nil
  then show ?case by (simp add: list_all2_refl refl)
next
  case (Cons u us)
  show ?case
  proof (cases "i \<ge> length sts")
    case True
    with Cons.prems show ?thesis by (simp add: list_all2_refl refl)
  next
    case False
    then have i: "i < length sts" by simp
    obtain r st' where u: "update_oa_state cfg (clock (i + 2)) u (max_individual_load cfg) (sts ! i) dt = (r, st')"
      by (cases "update_oa_state cfg (clock (i + 2)) u (max_individual_load cfg) (sts ! i) dt")
    have Ii: "I (sts ! i)" using Cons.prems i by (simp add: list_all_length)
    from step [OF Ii, of "clock (i + 2)" u] u have st': "I st'" "R (sts ! i) st'" by simp_all
    have I1: "list_all I (sts[i := st'])"
      using Cons.prems st'(1) i by (auto simp add: list_all_length nth_list_update)
    have R1: "list_all2 R sts (sts[i := st'])"
      using st'(2) refl i by (auto simp add: list_all2_conv_all_nth nth_list_update)
    show ?thesis
    proof (cases r)
      case (Inl e)
      with i u I1 R1 show ?thesis by simp
    next
      case (Inr f)
      from Cons.IH [OF I1, of "Suc i"]
      have IH: "list_all I (snd (units_loop cfg clock dt (Suc i) us (sts[i := st'])))"
        "list_all2 R (sts[i := st']) (snd (units_loop cfg clock dt (Suc i) us (sts[i := st'])))"
        by simp_all
      have eq: "snd (units_loop cfg clock dt i (u # us) sts) =
                snd (units_loop cfg clock dt (Suc i) us (sts[i := st']))"
        using i u Inr by (simp add: Let_def split: prod.splits sum.splits)
      from R1 IH(2) have "list_all2 R sts (snd (units_loop cfg clock dt (Suc i) us (sts[i := st'])))"
        by (rule list_all2_trans [rotated]) (rule trans)
      with IH(1) eq show ?thesis by simp
    qed
  qed
qed

lemma snd_run_distribution:
  "snd (run_distribution cfg clock s c us) = snd (run_distribution_locals cfg clock s c us)"
  by (simp add: run_distribution_def split: prod.splits sum.splits)

lemma run_distribution_locals_state:
  "snd (run_distribution_locals cfg clock s c us) =
     (let dt = (clock 0 - last_update_time s) / 60;
          u = update_oa_state cfg (clock 1) c (max_combined_load cfg) (combined_state s) dt
      in case fst u of
           Inl e \<Rightarrow> s\<lparr>last_update_time := clock 0\<rparr>
         | Inr f \<Rightarrow>
             s\<lparr>last_update_time := clock 0, combined_oa := oa (snd u),
               combined_ramp_start := ramp_start (snd u),
               combined_init_factor := init_factor (snd u),
               combined_ramp_dur := ramp_dur (snd u),
               consumer_oa_states := snd (units_loop cfg clock dt 0 us (consumer_oa_states s))\<rparr>)"
  by (simp add: run_distribution_locals_def combined_state_def Let_def
           split: prod.splits sum.splits)

lemma units_loop_snd_Cons:
  "snd (units_loop cfg clock dt i (u # us) sts) =
     (if length sts \<le> i then sts
      else let p = update_oa_state cfg (clock (i + 2)) u (max_individual_load cfg) (sts ! i) dt
           in case fst p of
                Inl e \<Rightarrow> sts[i := snd p]
              | Inr f \<Rightarrow> snd (units_loop cfg clock dt (Suc i) us (sts[i := snd p])))"
  by (simp add: Let_def split: prod.splits sum.splits)

lemma length_units_loop: "length (snd (units_loop cfg clock dt i us sts)) = length sts"
proof (induction us arbitrary: i sts)
  case Nil
  show ?case by simp
next
  case (Cons u us)
  show ?case
    unfolding units_loop_snd_Cons Let_def by (simp add: Cons.IH split: sum.splits)
qed

lemma combined_state_simps [simp]:
  "oa (combined_state s) = combined_oa s"
  "ramp_start (combined_state s) = combined_ramp_start s"
  "init_factor (combined_state s) = combined_init_factor s"
  "ramp_dur (combined_state s) = combined_ramp_dur s"
  by (simp_all add: combined_state_def)

lemma run_distribution_locals_inv:
  assumes "engine_inv s" "last_update_time s \<le> clock 0"
  shows "engine_inv (snd (run_distribution_locals cfg clock s c us))"
proof -
  define dt where "dt = (clock 0 - last_update_time s) / 60"
  have dt: "0 \<le> dt" using assms(2) by (simp add: dt_def)
  define u where "u = update_oa_state cfg (clock 1) c (max_combined_load cfg) (combined_state s) dt"
  have cu: "oa_inv (snd u)"
    unfolding u_def using assms(1) dt by (intro update_oa_state_inv) (simp_all add: engine_inv_def)
  have "list_all oa_inv (snd (units_loop cfg clock dt 0 us (consumer_oa_states s))) \<and>
        list_all2 (\<lambda>_ _. True) (consumer_oa_states s) (snd (units_loop cfg clock dt 0 us (consumer_oa_states s)))"
    using assms(1) dt by (intro units_loop_lift) (simp_all add: update_oa_state_inv engine_inv_def)
  then have lu: "list_all oa_inv (snd (units_loop cfg clock dt 0 us (consumer_oa_states s)))" by simp
  have st: "snd (run_distribution_locals cfg clock s c us) =
     (case fst u of
           Inl e \<Rightarrow> s\<lparr>last_update_time := clock 0\<rparr>
         | Inr f \<Rightarrow>
             s\<lparr>last_update_time := clock 0, combined_oa := oa (snd u),
               combined_ramp_start := ramp_start (snd u),
               combined_init_factor := init_factor (snd u),
               combined_ramp_dur := ramp_dur (snd u),
               consumer_oa_states := snd (units_loop cfg clock dt 0 us (consumer_oa_states s))\<rparr>)"
    unfolding run_distribution_locals_state Let_def dt_def u_def ..
  show ?thesis
  proof (cases "fst u")
    case (Inl e)
    with assms(1) st show ?thesis by (simp add: engine_inv_def combined_state_def)
  next
    case (Inr f)
    with assms(1) st cu lu show ?thesis
      by (simp add: engine_inv_def combined_state_def oa_inv_def length_units_loop)
  qed
qed

lemma init_engine_inv: "engine_inv (init_engine t0)"
  by (simp add: engine_inv_def init_engine_def combined_state_def oa_inv_def NUM_CONSUMERS_def
                numeral_eq_Suc)

lemma reachable_inv: "reachable cfg s \<Longrightarrow> engine_inv s"
  by (induction rule: reachable.induct)
     (simp_all add: init_engine_inv snd_run_distribution run_distribution_locals_inv)

subsection \<open>The cap of a unit\<close>

lemma update_oa_state_cap:
  assumes "1 \<le> init_factor st"
    and "update_oa_state cfg now load reference_limit st dt = (Inr f, st')"
  shows "reference_limit \<le> reference_limit * f"
proof (cases "reference_limit \<le> 0")
  case True
  with assms(2) show ?thesis by (simp add: update_oa_state_nonpositive_limit)
next
  case False
  moreover have "1 \<le> f" using assms by (rule update_oa_state_factor_ge_1)
  ultimately show ?thesis by simp
qed

lemma units_loop_pre_capped:
  assumes "list_all (\<lambda>st. 1 \<le> init_factor st) sts"
    and "units_loop cfg clock dt i us sts = (Inr (pres, pcts), sts')"
  shows "length pres = length us \<and>
         (\<forall>k<length us. us ! k \<le> max_individual_load cfg \<longrightarrow> pres ! k = us ! k)"
  using assms
proof (induction us arbitrary: i sts pres pcts sts')
  case Nil
  then show ?case by simp
next
  case (Cons u us)
  from Cons.prems(2) have i: "i < length sts"
    by (simp split: if_splits)
  from Cons.prems(2) i obtain f st1 pres1 pcts1 where
    u: "update_oa_state cfg (clock (i + 2)) u (max_individual_load cfg) (sts ! i) dt = (Inr f, st1)"
    and rec: "units_loop cfg clock dt (Suc i) us (sts[i := st1]) = (Inr (pres1, pcts1), sts')"
    and pres: "pres = min u (max_individual_load cfg * f) # pres1"
    by (auto simp add: Let_def split: prod.splits sum.splits)
  have fi: "1 \<le> init_factor (sts ! i)" using Cons.prems(1) i by (simp add: list_all_length)
  have cap: "max_individual_load cfg \<le> max_individual_load cfg * f"
    using fi u by (rule update_oa_state_cap)
  have "1 \<le> init_factor st1"
    using update_oa_state_init_factor [OF fi, of cfg "clock (i + 2)" u "max_individual_load cfg" dt] u
    by simp
  then have all1: "list_all (\<lambda>st. 1 \<le> init_factor st) (sts[i := st1])"
    using Cons.prems(1) i by (auto simp add: list_all_length nth_list_update)
  from Cons.IH [OF all1 rec]
  have IH: "length pres1 = length us"
    "\<forall>k<length us. us ! k \<le> max_individual_load cfg \<longrightarrow> pres1 ! k = us ! k" by simp_all
  show ?case
  proof (intro conjI allI impI)
    show "length pres = length (u # us)" using pres IH(1) by simp
  next
    fix k assume k: "k < length (u # us)" and le: "(u # us) ! k \<le> max_individual_load cfg"
    show "pres ! k = (u # us) ! k"
    proof (cases k)
      case 0
      with le cap pres show ?thesis by simp
    next
      case (Suc j)
      with k le IH(2) pres show ?thesis by simp
    qed
  qed
qed

section \<open>Evaluation of concrete ticks\<close>

lemmas tick_defs =
  fdiv_def interpolate_value_def calculate_oa_timing_def calculate_recovery_time_def
  rate_per_min_def ramp_down_def update_oa_state_def proportional_limits_def
  run_distribution_locals_def run_distribution_def init_engine_def NUM_CONSUMERS_def
  default_config_def clock_at_def Let_def

lemma overloaded_engine_eq:
  "overloaded_engine =
     \<lparr> combined_oa = 0, combined_ramp_start = Some 600, combined_ramp_dur = Some 5,
       combined_init_factor = 5 / 4,
       consumer_oa_states = replicate 4 fresh_oa,
       last_update_time = 600 \<rparr>"
  by (simp add: overloaded_engine_def tick_defs fresh_oa_def numeral_eq_Suc)

lemma overloaded_engine_reachable: "reachable default_config overloaded_engine"
  unfolding overloaded_engine_def
  by (rule reachable.tick [where clock = "clock_at 600", OF reachable.start])
     (simp add: init_engine_def clock_at_def)

lemma scarce_tick_eq:
  "fst scarce_tick =
     Inr \<lparr> current_combined_limit = 16, X_managed_capacity = 8,
           pre_capped_requests = [4, 4, 4, 0], L_units_pre_capped_total = 12,
           final_limits = [8 / 3, 8 / 3, 8 / 3, 0],
           individual_oa_percents = [100, 100, 100, 100] \<rparr>"
  by (simp add: scarce_tick_def overloaded_engine_eq tick_defs fresh_oa_def round2_def numeral_eq_Suc)

section \<open>Further facts used by the claims\<close>

subsection \<open>Proportional limits\<close>

lemma sum_list_scaled: "sum_list (map (\<lambda>load. load * k) xs) = sum_list xs * (k::real)"
  by (induction xs) (simp_all add: algebra_simps)

lemma proportional_limits_scarce:
  assumes "capacity < sum_list pre" "0 < sum_list pre"
  shows "proportional_limits capacity pre = Inr (map (\<lambda>load. load * (capacity / sum_list pre)) pre)"
  using assms by (simp add: proportional_limits_def fdiv_def Let_def)

lemma run_distribution_locals_final:
  assumes "run_distribution_locals cfg clock s c us = (Inr l, s')"
  shows "proportional_limits (X_managed_capacity l) (pre_capped_requests l) = Inr (final_limits l) \<and>
         L_units_pre_capped_total l = sum_list (pre_capped_requests l)"
  using assms
  by (auto simp add: run_distribution_locals_def Let_def split: prod.splits sum.splits)

subsection \<open>Zero elapsed time\<close>

lemma ramp_down_oa: "oa st1 = 0 \<Longrightarrow> oa (snd (ramp_down now r T st1)) = 0"
  by (auto simp add: ramp_down_def Let_def split: option.splits sum.splits if_splits)

lemma update_oa_state_zero_dt:
  assumes "oa_inv st"
  shows "oa (snd (update_oa_state cfg now load reference_limit st 0)) = oa st \<and>
         (0 < oa st \<longrightarrow>
            ramp_start (snd (update_oa_state cfg now load reference_limit st 0)) = ramp_start st \<and>
            init_factor (snd (update_oa_state cfg now load reference_limit st 0)) = init_factor st)"
proof (cases "reference_limit \<le> 0")
  case True
  then show ?thesis by (simp add: update_oa_state_nonpositive_limit)
next
  case False
  then have pos: "0 < reference_limit" by simp
  from assms have none: "0 < oa st \<longrightarrow> ramp_start st = None" and range: "0 \<le> oa st" "oa st \<le> 100"
    by (auto simp add: oa_inv_def)
  from pos show ?thesis
  proof (cases rule: update_oa_state_cases [where load = load and st = st and dt = 0 and cfg = cfg and now = now])
    case (recover rate)
    with none range show ?thesis by simp
  next
    case (accept rate)
    with none range show ?thesis by simp
  next
    case (limit rate T_ramp)
    from limit(3) range have z: "oa st = 0" by simp
    with limit(4) show ?thesis by (simp add: ramp_down_oa)
  qed
qed

subsection \<open>Clock readings\<close>

lemma units_loop_clock_cong:
  assumes "\<forall>k. i + 2 \<le> k \<and> k < i + 2 + length us \<longrightarrow> clock k = clock' k"
  shows "units_loop cfg clock dt i us sts = units_loop cfg clock' dt i us sts"
  using assms
proof (induction us arbitrary: i sts)
  case Nil
  show ?case by simp
next
  case (Cons u us)
  have h: "clock (i + 2) = clock' (i + 2)" using Cons.prems by simp
  have t: "units_loop cfg clock dt (Suc i) us sts' = units_loop cfg clock' dt (Suc i) us sts'" for sts'
    using Cons.prems by (intro Cons.IH) simp
  show ?case
    unfolding units_loop.simps h t ..
qed

subsection \<open>The controller\<close>

lemma length_gather_units: "length (gather_units pyfloat cfg states) = 4"
  by (simp add: gather_units_def unit_keys_def)

lemma gather_units_nth:
  assumes "i < 4"
  shows "gather_units pyfloat cfg states ! i =
           (case get_float_state pyfloat (states (unit_keys cfg ! i)) of None \<Rightarrow> 0 | Some load \<Rightarrow> load)"
proof -
  have "i < length (unit_keys cfg)" using assms by (simp add: unit_keys_def)
  then show ?thesis unfolding gather_units_def by (rule nth_map)
qed

lemma controller_halts:
  assumes "get_float_state pyfloat (states (entity_combined_load cfg)) = None"
  shows "async_run_controller pyfloat cfg clock states hdata = (Halted, hdata)"
  using assms by (simp add: async_run_controller_def)

lemma controller_runs:
  assumes "get_float_state pyfloat (states (entity_combined_load cfg)) = Some c"
  shows "fst (async_run_controller pyfloat cfg clock states hdata) \<noteq> Halted \<and>
         manager (snd (async_run_controller pyfloat cfg clock states hdata)) =
           snd (run_distribution cfg clock (manager hdata) c (gather_units pyfloat cfg states))"
  using assms by (simp add: async_run_controller_def Let_def split: prod.splits sum.splits)

subsection \<open>Ticks that return\<close>

lemma interpolate_value_pos:
  assumes "0 < y1" "0 < y2" "interpolate_value x x1 y1 x2 y2 = Inr v"
  shows "0 < v"
proof (cases "x1 = x2 \<or> x \<le> x1 \<or> x2 \<le> x")
  case True
  with assms show ?thesis by (auto simp add: interpolate_value_def split: if_splits)
next
  case False
  then have lt: "x1 < x" "x < x2" by simp_all
  define t where "t = (x - x1) / (x2 - x1)"
  have t: "0 < t" "t < 1" using lt by (simp_all add: t_def)
  have "v = y1 + (x - x1) * (y2 - y1) / (x2 - x1)"
    using assms(3) False by (simp add: interpolate_value_def fdiv_def)
  also have "\<dots> = y1 + t * (y2 - y1)" by (simp add: t_def)
  also have "\<dots> = (1 - t) * y1 + t * y2" by (simp add: algebra_simps)
  finally have v: "v = (1 - t) * y1 + t * y2" .
  have "0 < (1 - t) * y1" "0 < t * y2" using t assms(1,2) by simp_all
  with v show ?thesis by simp
qed

lemma calculate_oa_timing_ramp_pos:
  assumes "0 < ramp_5_percent cfg" "0 < ramp_20_percent cfg"
    and "calculate_oa_timing cfg r = Inr (T_delay, T_ramp)"
  shows "0 < T_ramp"
  using assms
  by (auto simp add: calculate_oa_timing_def Let_def split: sum.splits
           dest: interpolate_value_pos [rotated 2])

lemma update_oa_state_overload_timing:
  assumes "0 < reference_limit" "reference_limit < load"
  shows "\<exists>rate T_delay T_ramp. 0 < rate \<and>
         calculate_oa_timing cfg (load / reference_limit) = Inr (T_delay, T_ramp) \<and>
         update_oa_state cfg now load reference_limit st dt =
         (if 0 < oa st - rate * dt
          then (Inr (load / reference_limit), st\<lparr>oa := oa st - rate * dt, ramp_start := None\<rparr>)
          else ramp_down now (load / reference_limit) T_ramp (st\<lparr>oa := 0\<rparr>))"
proof -
  obtain T_delay T_ramp where T: "calculate_oa_timing cfg (load / reference_limit) = Inr (T_delay, T_ramp)"
    by (cases "calculate_oa_timing cfg (load / reference_limit)") auto
  obtain rate where r: "rate_per_min T_delay = Inr rate" "0 < rate"
    by (cases "rate_per_min T_delay") (auto dest: rate_per_min_pos)
  have "update_oa_state cfg now load reference_limit st dt =
         (if 0 < oa st - rate * dt
          then (Inr (load / reference_limit), st\<lparr>oa := oa st - rate * dt, ramp_start := None\<rparr>)
          else ramp_down now (load / reference_limit) T_ramp (st\<lparr>oa := 0\<rparr>))"
    using assms by (simp add: update_oa_state_def fdiv_def Let_def T r max_def)
  with r T show ?thesis by blast
qed

lemma ramp_down_returns:
  assumes "ramp_recorded st1" "0 < T_ramp"
  shows "(\<exists>f. fst (ramp_down now r T_ramp st1) = Inr f) \<and> ramp_recorded (snd (ramp_down now r T_ramp st1))"
  using assms
  by (auto simp add: ramp_down_def ramp_recorded_def Let_def fdiv_def split: option.splits)

lemma update_oa_state_returns:
  assumes "0 < ramp_5_percent cfg" "0 < ramp_20_percent cfg" "ramp_recorded st"
  shows "(\<exists>f. fst (update_oa_state cfg now load reference_limit st dt) = Inr f) \<and>
         ramp_recorded (snd (update_oa_state cfg now load reference_limit st dt))"
proof (cases "reference_limit \<le> 0")
  case True
  with assms(3) show ?thesis by (simp add: update_oa_state_nonpositive_limit)
next
  case False
  then have pos: "0 < reference_limit" by simp
  show ?thesis
  proof (cases "load \<le> reference_limit")
    case True
    from update_oa_state_recover [OF pos True, of cfg now st dt]
    show ?thesis by (auto simp add: ramp_recorded_def)
  next
    case False
    then have lt: "reference_limit < load" by simp
    from update_oa_state_overload_timing [OF pos lt, of cfg now st dt]
    obtain rate T_delay T_ramp where
      T: "calculate_oa_timing cfg (load / reference_limit) = Inr (T_delay, T_ramp)"
      and u: "update_oa_state cfg now load reference_limit st dt =
         (if 0 < oa st - rate * dt
          then (Inr (load / reference_limit), st\<lparr>oa := oa st - rate * dt, ramp_start := None\<rparr>)
          else ramp_down now (load / reference_limit) T_ramp (st\<lparr>oa := 0\<rparr>))" by blast
    have Tp: "0 < T_ramp" using assms(1,2) T by (rule calculate_oa_timing_ramp_pos)
    have rr: "ramp_recorded (st\<lparr>oa := 0\<rparr>)" using assms(3) by (simp add: ramp_recorded_def)
    show ?thesis
    proof (cases "0 < oa st - rate * dt")
      case True
      with u show ?thesis by (simp add: ramp_recorded_def)
    next
      case False
      with u ramp_down_returns [OF rr Tp, of now "load / reference_limit"] show ?thesis by simp
    qed
  qed
qed

lemma units_loop_returns:
  assumes "0 < ramp_5_percent cfg" "0 < ramp_20_percent cfg"
  shows "list_all ramp_recorded sts \<Longrightarrow> i + length us \<le> length sts \<Longrightarrow>
         (\<exists>r. fst (units_loop cfg clock dt i us sts) = Inr r) \<and>
         list_all ramp_recorded (snd (units_loop cfg clock dt i us sts))"
proof (induction us arbitrary: i sts)
  case Nil
  then show ?case by simp
next
  case (Cons u us)
  from Cons.prems(2) have i: "i < length sts" by simp
  have ri: "ramp_recorded (sts ! i)" using Cons.prems(1) i by (simp add: list_all_length)
  from update_oa_state_returns [OF assms ri, of "clock (i + 2)" u "max_individual_load cfg" dt]
  obtain f st1 where u: "update_oa_state cfg (clock (i + 2)) u (max_individual_load cfg) (sts ! i) dt = (Inr f, st1)"
    and r1: "ramp_recorded st1"
    by (cases "update_oa_state cfg (clock (i + 2)) u (max_individual_load cfg) (sts ! i) dt") auto
  have all1: "list_all ramp_recorded (sts[i := st1])"
    using Cons.prems(1) r1 i by (auto simp add: list_all_length nth_list_update)
  have "Suc i + length us \<le> length (sts[i := st1])" using Cons.prems(2) by simp
  from Cons.IH [OF all1 this]
  obtain r sts2 where rec: "units_loop cfg clock dt (Suc i) us (sts[i := st1]) = (Inr r, sts2)"
    and all2: "list_all ramp_recorded sts2"
    by (cases "units_loop cfg clock dt (Suc i) us (sts[i := st1])") auto
  from i u rec all2 show ?case by (cases r) (simp add: Let_def)
qed

lemma proportional_limits_not_Inl [simp]: "proportional_limits capacity pre \<noteq> Inl e"
  by (simp add: proportional_limits_def fdiv_def Let_def)

lemma run_distribution_locals_returns:
  assumes "0 < ramp_5_percent cfg" "0 < ramp_20_percent cfg"
    and "ramp_recorded (combined_state s)" "list_all ramp_recorded (consumer_oa_states s)"
    and "length us \<le> length (consumer_oa_states s)"
  shows "(\<exists>l. fst (run_distribution_locals cfg clock s c us) = Inr l) \<and>
         ramp_recorded (combined_state (snd (run_distribution_locals cfg clock s c us))) \<and>
         list_all ramp_recorded (consumer_oa_states (snd (run_distribution_locals cfg clock s c us)))"
proof -
  from update_oa_state_returns [OF assms(1-3), of "clock 1" c "max_combined_load cfg"
      "(clock 0 - last_update_time s) / 60"]
  obtain f cst where u: "update_oa_state cfg (clock 1) c (max_combined_load cfg)
       \<lparr>oa = combined_oa s, ramp_start = combined_ramp_start s,
          init_factor = combined_init_factor s, ramp_dur = combined_ramp_dur s\<rparr>
       ((clock 0 - last_update_time s) / 60) = (Inr f, cst)"
    and rc: "ramp_recorded cst"
    by (cases "update_oa_state cfg (clock 1) c (max_combined_load cfg) (combined_state s)
                 ((clock 0 - last_update_time s) / 60)")
       (auto simp add: combined_state_def)
  from units_loop_returns [OF assms(1,2,4), of 0 us clock "(clock 0 - last_update_time s) / 60"] assms(5)
  obtain pre percents sts where l: "units_loop cfg clock ((clock 0 - last_update_time s) / 60) 0 us
        (consumer_oa_states s) = (Inr (pre, percents), sts)"
    and rs: "list_all ramp_recorded sts"
    by (cases "units_loop cfg clock ((clock 0 - last_update_time s) / 60) 0 us (consumer_oa_states s)")
       auto
  have res: "\<exists>l. fst (run_distribution_locals cfg clock s c us) = Inr l"
    by (simp add: run_distribution_locals_def Let_def u l split: sum.splits del: One_nat_def)
  have u2: "update_oa_state cfg (clock 1) c (max_combined_load cfg) (combined_state s)
       ((clock 0 - last_update_time s) / 60) = (Inr f, cst)"
    using u by (simp add: combined_state_def)
  have st: "snd (run_distribution_locals cfg clock s c us) =
      s\<lparr>last_update_time := clock 0, combined_oa := oa cst,
        combined_ramp_start := ramp_start cst,
        combined_init_factor := init_factor cst,
        combined_ramp_dur := ramp_dur cst,
        consumer_oa_states := sts\<rparr>"
    unfolding run_distribution_locals_state Let_def u2 l by simp
  have cs: "combined_state (snd (run_distribution_locals cfg clock s c us)) = cst"
    unfolding st by (simp add: combined_state_def)
  from res rc rs show ?thesis unfolding cs by (simp add: st)
qed

lemma run_distribution_locals_ramp_recorded:
  assumes "0 < ramp_5_percent cfg" "0 < ramp_20_percent cfg"
    and "ramp_recorded (combined_state s)" "list_all ramp_recorded (consumer_oa_states s)"
  shows "ramp_recorded (combined_state (snd (run_distribution_locals cfg clock s c us))) \<and>
         list_all ramp_recorded (consumer_oa_states (snd (run_distribution_locals cfg clock s c us)))"
proof -
  define dt where "dt = (clock 0 - last_update_time s) / 60"
  define u where "u = update_oa_state cfg (clock 1) c (max_combined_load cfg) (combined_state s) dt"
  have cu: "ramp_recorded (snd u)"
    unfolding u_def using update_oa_state_returns [OF assms(1-3)] by simp
  have "list_all ramp_recorded (snd (units_loop cfg clock dt 0 us (consumer_oa_states s))) \<and>
        list_all2 (\<lambda>_ _. True) (consumer_oa_states s) (snd (units_loop cfg clock dt 0 us (consumer_oa_states s)))"
    using assms(4) update_oa_state_returns [OF assms(1,2)]
    by (intro units_loop_lift) simp_all
  then have lu: "list_all ramp_recorded (snd (units_loop cfg clock dt 0 us (consumer_oa_states s)))"
    by simp
  have st: "snd (run_distribution_locals cfg clock s c us) =
     (case fst u of
           Inl e \<Rightarrow> s\<lparr>last_update_time := clock 0\<rparr>
         | Inr f \<Rightarrow>
             s\<lparr>last_update_time := clock 0, combined_oa := oa (snd u),
               combined_ramp_start := ramp_start (snd u),
               combined_init_factor := init_factor (snd u),
               combined_ramp_dur := ramp_dur (snd u),
               consumer_oa_states := snd (units_loop cfg clock dt 0 us (consumer_oa_states s))\<rparr>)"
    unfolding run_distribution_locals_state Let_def dt_def u_def ..
  show ?thesis
  proof (cases "fst u")
    case (Inl e)
    with assms(3,4) st show ?thesis by (simp add: combined_state_def)
  next
    case (Inr f)
    with st cu lu show ?thesis by (simp add: combined_state_def ramp_recorded_def)
  qed
qed

lemma reachable_ramp_recorded:
  assumes "0 < ramp_5_percent cfg" "0 < ramp_20_percent cfg"
  shows "reachable cfg s \<Longrightarrow>
         ramp_recorded (combined_state s) \<and> list_all ramp_recorded (consumer_oa_states s)"
proof (induction rule: reachable.induct)
  case (start t0)
  show ?case
    by (simp add: init_engine_def combined_state_def ramp_recorded_def NUM_CONSUMERS_def
          numeral_eq_Suc)
next
  case (tick s clock L_combined_actual L_units_actual)
  then show ?case
    using run_distribution_locals_ramp_recorded [OF assms]
    by (simp add: snd_run_distribution)
qed

text \<open>
  With both ramp durations positive the division by \<^verbatim>\<open>ramp_dur\<close> is the only one that could
  fail and it does not: every tick of a reachable engine on at most four unit loads returns
  a result.
\<close>

lemma run_distribution_returns:
  assumes "0 < ramp_5_percent cfg" "0 < ramp_20_percent cfg"
    and "reachable cfg s" "length us \<le> NUM_CONSUMERS"
  shows "\<exists>results. fst (run_distribution cfg clock s c us) = Inr results"
proof -
  from reachable_ramp_recorded [OF assms(1-3)]
  have rc: "ramp_recorded (combined_state s)" and ru: "list_all ramp_recorded (consumer_oa_states s)"
    by simp_all
  have "length (consumer_oa_states s) = NUM_CONSUMERS"
    using reachable_inv [OF assms(3)] by (simp add: engine_inv_def)
  with assms(4) have len: "length us \<le> length (consumer_oa_states s)" by simp
  from run_distribution_locals_returns [OF assms(1,2) rc ru len, of clock c]
  obtain l where "fst (run_distribution_locals cfg clock s c us) = Inr l" by blast
  then show ?thesis
    by (cases "run_distribution_locals cfg clock s c us") (simp add: run_distribution_def)
qed

section \<open>The claims\<close>

text \<open>
  C1 (the tick never raises; every division, that by \<^verbatim>\<open>ramp_dur\<close> included, is guarded).
  The division \<^verbatim>\<open>time_elapsed_min / state['ramp_dur']\<close> has no guard, unlike the divisions
  by \<^verbatim>\<open>T_delay\<close> and \<^verbatim>\<open>T_recover\<close> next to it. With both ramp durations configured as 0,
  a combined load of 20 A against the limit of 16 A, read ten minutes after the previous
  tick, exhausts the buffer, starts a ramp of duration 0 and raises
  \<open>ZeroDivisionError\<close>; the engine keeps the new tick time and nothing else.
\<close>

theorem run_distribution_zero_ramp_raises:
  "run_distribution zero_ramp_config (clock_at 600) (init_engine 0) 20 [4, 4, 4, 4] =
     (Inl ZeroDivisionError, (init_engine 0)\<lparr>last_update_time := 600\<rparr>)"
  by (simp add: tick_defs zero_ramp_config_def numeral_eq_Suc)

text \<open>
  C3 (the five buffers stay percentages). In every engine state reached from construction
  by ticks with \<open>dt \<ge> 0\<close>, whatever the loads and whether or not a tick raised, the
  combined \<^verbatim>\<open>oa\<close> and the \<^verbatim>\<open>oa\<close> of each of the four consumers lie between 0 and 100.
\<close>

theorem oa_percent_in_range:
  assumes "reachable cfg s"
  shows "0 \<le> combined_oa s \<and> combined_oa s \<le> 100 \<and>
         length (consumer_oa_states s) = 4 \<and>
         (\<forall>i<4. 0 \<le> oa (consumer_oa_states s ! i) \<and> oa (consumer_oa_states s ! i) \<le> 100)"
proof -
  from assms have inv: "engine_inv s" by (rule reachable_inv)
  then have c: "oa_inv (combined_state s)" and n: "length (consumer_oa_states s) = 4"
    and u: "list_all oa_inv (consumer_oa_states s)"
    by (simp_all add: engine_inv_def NUM_CONSUMERS_def)
  from u n have "\<forall>i<4. oa_inv (consumer_oa_states s ! i)" by (simp add: list_all_length)
  with c n show ?thesis by (simp add: oa_inv_def)
qed

theorem oa_percent_in_range_witness:
  "reachable default_config
     (snd (run_distribution default_config (clock_at 60) (init_engine 0) 17 [4, 4, 4, 4])) \<and>
   combined_oa (snd (run_distribution default_config (clock_at 60) (init_engine 0) 17 [4, 4, 4, 4]))
     = 625 / 7 \<and>
   0 \<le> combined_oa (snd (run_distribution default_config (clock_at 60) (init_engine 0) 17 [4, 4, 4, 4])) \<and>
   combined_oa (snd (run_distribution default_config (clock_at 60) (init_engine 0) 17 [4, 4, 4, 4])) \<le> 100 \<and>
   oa (consumer_oa_states
        (snd (run_distribution default_config (clock_at 60) (init_engine 0) 17 [4, 4, 4, 4])) ! 3) \<le> 100"
proof -
  have last: "last_update_time (init_engine 0) \<le> clock_at 60 0"
    by (simp add: init_engine_def clock_at_def)
  have r: "reachable default_config
     (snd (run_distribution default_config (clock_at 60) (init_engine 0) 17 [4, 4, 4, 4]))"
    by (rule reachable.tick [where clock = "clock_at 60", OF reachable.start last])
  have v: "combined_oa (snd (run_distribution default_config (clock_at 60) (init_engine 0) 17 [4, 4, 4, 4]))
     = 625 / 7"
    by (simp add: tick_defs numeral_eq_Suc)
  from oa_percent_in_range [OF r] r v show ?thesis by simp
qed

text \<open>
  C9 (the limit factor is never below 1). For an overload-acceptance dictionary of a
  reachable engine state, whenever \<^verbatim>\<open>_update_oa_state\<close> returns, for a reference limit of any
  sign, any load and any elapsed time, the factor \<open>f\<close> it returns is at least 1; so the
  cap \<open>reference_limit * f\<close> is never below \<open>reference_limit\<close>, and a load at or below the
  limit is left as it is by \<^verbatim>\<open>min(requested_load, consumer_oa_cap)\<close>. In a tick that returns,
  the entry of \<^verbatim>\<open>pre_capped_requests\<close> of a unit drawing at most \<^verbatim>\<open>max_individual_load\<close> is its
  actual draw.
\<close>

theorem limit_factor_at_least_one:
  assumes "reachable cfg s"
  shows "(st \<in> set (combined_state s # consumer_oa_states s) \<and>
          update_oa_state cfg now load reference_limit st dt = (Inr f, st') \<longrightarrow>
            1 \<le> f \<and> reference_limit \<le> reference_limit * f \<and>
            (load \<le> reference_limit \<longrightarrow> min load (reference_limit * f) = load)) \<and>
         (run_distribution_locals cfg clock s c us = (Inr l, s') \<and> i < length us \<and>
          us ! i \<le> max_individual_load cfg \<longrightarrow>
            pre_capped_requests l ! i = us ! i)"
proof (intro conjI impI)
  from assms have inv: "engine_inv s" by (rule reachable_inv)
  then have all1: "list_all (\<lambda>st. 1 \<le> init_factor st) (consumer_oa_states s)"
    and c1: "1 \<le> combined_init_factor s"
    by (simp_all add: engine_inv_def oa_inv_def list_all_length)
  {
    assume a: "st \<in> set (combined_state s # consumer_oa_states s) \<and>
          update_oa_state cfg now load reference_limit st dt = (Inr f, st')"
    then have "1 \<le> init_factor st" using all1 c1 by (auto simp add: list_all_iff)
    with a have f: "1 \<le> f" and cap: "reference_limit \<le> reference_limit * f"
      by (blast intro: update_oa_state_factor_ge_1 update_oa_state_cap)+
    show "1 \<le> f" by (rule f)
    show "reference_limit \<le> reference_limit * f" by (rule cap)
    assume "load \<le> reference_limit"
    with cap show "min load (reference_limit * f) = load" by simp
  }
  assume b: "run_distribution_locals cfg clock s c us = (Inr l, s') \<and> i < length us \<and>
          us ! i \<le> max_individual_load cfg"
  then obtain sts pcts where
    "units_loop cfg clock ((clock 0 - last_update_time s) / 60) 0 us (consumer_oa_states s) =
       (Inr (pre_capped_requests l, pcts), sts)"
    by (auto simp add: run_distribution_locals_def Let_def split: prod.splits sum.splits)
  from units_loop_pre_capped [OF all1 this] b show "pre_capped_requests l ! i = us ! i" by simp
qed

theorem limit_factor_at_least_one_witness:
  "reachable default_config (init_engine 0) \<and>
   (\<exists>st'. update_oa_state default_config 5 20 16 (combined_state (init_engine 0)) (1 / 12)
            = (Inr (5 / 4), st')) \<and>
   (1::real) \<le> 5 / 4 \<and> (16::real) \<le> 16 * (5 / 4) \<and>
   (\<exists>l s'. run_distribution_locals default_config (clock_at 5) (init_engine 0) 12 [3, 4, 5, 0]
             = (Inr l, s') \<and>
           pre_capped_requests l ! 0 = 3)"
proof -
  have r: "reachable default_config (init_engine 0)" by (rule reachable.start)
  obtain st' where u: "update_oa_state default_config 5 20 16 (combined_state (init_engine 0)) (1 / 12)
            = (Inr (5 / 4), st')"
    by (simp add: tick_defs combined_state_def)
  obtain l s' where d: "run_distribution_locals default_config (clock_at 5) (init_engine 0) 12 [3, 4, 5, 0]
             = (Inr l, s')"
    by (simp add: tick_defs numeral_eq_Suc)
  from limit_factor_at_least_one [OF r, where st = "combined_state (init_engine 0)" and now = 5
       and load = 20 and reference_limit = 16 and dt = "1 / 12" and f = "5 / 4" and st' = st'
       and clock = "clock_at 5" and c = 12 and us = "[3, 4, 5, 0]" and l = l and s' = s' and i = 0]
    u d r
  show ?thesis by (simp add: default_config_def)
qed

text \<open>
  C4 (ramp linearity). In the ramping state (buffer exhausted, ramp start \<open>t0\<close>, a positive
  ramp duration \<open>d\<close> and initial factor \<open>f0\<close> recorded), an update at clock reading \<open>now\<close>
  with the load still above a positive reference limit and \<open>dt \<ge> 0\<close> returns, at the ramp
  fraction \<open>p = ((now - t0) / 60) / d\<close>: exactly \<open>f0 - (f0 - 1) * p\<close> when \<open>0 \<le> p \<le> 1\<close>, and
  exactly 1 when \<open>p \<ge> 1\<close>. The recorded ramp is left as it is, so the same holds at the
  next tick.
\<close>

theorem ramp_linearity:
  assumes "0 < reference_limit" "reference_limit < load" "0 \<le> dt"
    and "oa st = 0" "ramp_start st = Some t0" "ramp_dur st = Some d" "0 < d"
    and "init_factor st = f0" "p = (now - t0) / 60 / d"
  shows "(0 \<le> p \<and> p \<le> 1 \<longrightarrow>
            fst (update_oa_state cfg now load reference_limit st dt) = Inr (f0 - (f0 - 1) * p)) \<and>
         (1 \<le> p \<longrightarrow> fst (update_oa_state cfg now load reference_limit st dt) = Inr 1) \<and>
         snd (update_oa_state cfg now load reference_limit st dt) = st"
proof -
  from update_oa_state_overload [OF assms(1,2), of cfg now st dt]
  obtain rate T_ramp where r: "0 < rate"
    and u: "update_oa_state cfg now load reference_limit st dt =
         (if 0 < oa st - rate * dt
          then (Inr (load / reference_limit), st\<lparr>oa := oa st - rate * dt, ramp_start := None\<rparr>)
          else ramp_down now (load / reference_limit) T_ramp (st\<lparr>oa := 0\<rparr>))" by blast
  have "0 \<le> rate * dt" using r assms(3) by simp
  then have n: "\<not> 0 < oa st - rate * dt" using assms(4) by simp
  have st0: "st\<lparr>oa := 0\<rparr> = st" using assms(4) by simp
  have q: "fdiv ((now - t0) / 60) d = Inr p" using assms(7,9) by (simp add: fdiv_def)
  have rd: "ramp_down now (load / reference_limit) T_ramp st =
         (if 1 \<le> p then (Inr 1, st) else (Inr (f0 - (f0 - 1) * p), st))"
    using assms(4,5,6,8) by (simp add: ramp_down_def Let_def q)
  from u n st0 rd have "update_oa_state cfg now load reference_limit st dt =
         (if 1 \<le> p then (Inr 1, st) else (Inr (f0 - (f0 - 1) * p), st))" by simp
  then show ?thesis by auto
qed

theorem ramp_linearity_witness:
  "fst (update_oa_state default_config 750 20 16
          \<lparr> oa = 0, ramp_start = Some 600, init_factor = 5 / 4, ramp_dur = Some 5 \<rparr> (5 / 2))
     = Inr (9 / 8) \<and>
   fst (update_oa_state default_config 900 20 16
          \<lparr> oa = 0, ramp_start = Some 600, init_factor = 5 / 4, ramp_dur = Some 5 \<rparr> (5 / 2))
     = Inr 1"
proof -
  have a: "fst (update_oa_state default_config 750 20 16
          \<lparr> oa = 0, ramp_start = Some 600, init_factor = 5 / 4, ramp_dur = Some 5 \<rparr> (5 / 2))
     = Inr (9 / 8)"
    using ramp_linearity [where reference_limit = 16 and load = 20 and dt = "5 / 2"
      and st = "\<lparr> oa = 0, ramp_start = Some 600, init_factor = 5 / 4, ramp_dur = Some 5 \<rparr>"
      and ?t0.0 = 600 and d = 5 and ?f0.0 = "5 / 4" and p = "1 / 2" and now = 750
      and cfg = default_config]
    by simp
  have b: "fst (update_oa_state default_config 900 20 16
          \<lparr> oa = 0, ramp_start = Some 600, init_factor = 5 / 4, ramp_dur = Some 5 \<rparr> (5 / 2))
     = Inr 1"
    using ramp_linearity [where reference_limit = 16 and load = 20 and dt = "5 / 2"
      and st = "\<lparr> oa = 0, ramp_start = Some 600, init_factor = 5 / 4, ramp_dur = Some 5 \<rparr>"
      and ?t0.0 = 600 and d = 5 and ?f0.0 = "5 / 4" and p = 1 and now = 900
      and cfg = default_config]
    by simp
  from a b show ?thesis by simp
qed

text \<open>
  C5 (proportional scaling under scarcity). As stated, the claim fails for a unit whose
  pre-capped demand is 0: its final limit is 0 too, and the quotient
  \<^verbatim>\<open>final[i] / pre_capped[i]\<close> is a division of zero by zero, not the scaling factor. With the
  combined circuit limited to 16 A, 8 A of unmanaged load, three units at 4 A and one idle,
  the capacity 8 is short of the demand 12, the factor is \<open>2/3\<close> and the idle unit has
  \<open>0 / 0\<close>.
\<close>

theorem proportional_ratio_counterexample:
  "X_managed_capacity (projr (fst scarce_tick)) < L_units_pre_capped_total (projr (fst scarce_tick)) \<and>
   0 < L_units_pre_capped_total (projr (fst scarce_tick)) \<and>
   fdiv (X_managed_capacity (projr (fst scarce_tick))) (L_units_pre_capped_total (projr (fst scarce_tick)))
     = Inr (2 / 3) \<and>
   pre_capped_requests (projr (fst scarce_tick)) ! 3 = 0 \<and>
   fdiv (final_limits (projr (fst scarce_tick)) ! 3) (pre_capped_requests (projr (fst scarce_tick)) ! 3)
     = Inl ZeroDivisionError \<and>
   final_limits (projr (fst scarce_tick)) ! 3 / pre_capped_requests (projr (fst scarce_tick)) ! 3
     \<noteq> X_managed_capacity (projr (fst scarce_tick)) / L_units_pre_capped_total (projr (fst scarce_tick))"
  by (simp add: scarce_tick_eq fdiv_def)

text \<open>
  C5, amended. In a tick that returns with \<open>X_managed_capacity < L_units_pre_capped_total\<close>
  and \<open>L_units_pre_capped_total > 0\<close>, every final limit is the pre-capped demand times
  \<open>X_managed_capacity / L_units_pre_capped_total\<close>; for every unit whose pre-capped demand
  is not 0 the quotient of the two is that factor; and the final limits sum to
  \<open>X_managed_capacity\<close>.
\<close>

theorem proportional_scaling:
  assumes "run_distribution_locals cfg clock s c us = (Inr l, s')"
    and "X_managed_capacity l < L_units_pre_capped_total l"
    and "0 < L_units_pre_capped_total l"
  shows "length (final_limits l) = length (pre_capped_requests l) \<and>
         (\<forall>i<length (pre_capped_requests l).
            final_limits l ! i =
              pre_capped_requests l ! i * (X_managed_capacity l / L_units_pre_capped_total l) \<and>
            (pre_capped_requests l ! i \<noteq> 0 \<longrightarrow>
               final_limits l ! i / pre_capped_requests l ! i =
                 X_managed_capacity l / L_units_pre_capped_total l)) \<and>
         sum_list (final_limits l) = X_managed_capacity l"
proof -
  from run_distribution_locals_final [OF assms(1)]
  have p: "proportional_limits (X_managed_capacity l) (pre_capped_requests l) = Inr (final_limits l)"
    and t: "L_units_pre_capped_total l = sum_list (pre_capped_requests l)" by simp_all
  from proportional_limits_scarce [of "X_managed_capacity l" "pre_capped_requests l"] assms(2,3) p t
  have f: "final_limits l =
             map (\<lambda>load. load * (X_managed_capacity l / L_units_pre_capped_total l))
                 (pre_capped_requests l)" by simp
  have len: "length (final_limits l) = length (pre_capped_requests l)"
    by (subst f) simp
  have nth: "final_limits l ! i =
              pre_capped_requests l ! i * (X_managed_capacity l / L_units_pre_capped_total l)"
    if "i < length (pre_capped_requests l)" for i
    using that by (subst f) simp
  have "sum_list (final_limits l) =
          sum_list (pre_capped_requests l) * (X_managed_capacity l / L_units_pre_capped_total l)"
    by (subst f) (rule sum_list_scaled)
  also have "\<dots> = X_managed_capacity l" using assms(3) t by simp
  finally have total: "sum_list (final_limits l) = X_managed_capacity l" .
  from len nth total show ?thesis by simp
qed

theorem proportional_scaling_witness:
  "X_managed_capacity (projr (fst scarce_tick)) < L_units_pre_capped_total (projr (fst scarce_tick)) \<and>
   0 < L_units_pre_capped_total (projr (fst scarce_tick)) \<and>
   final_limits (projr (fst scarce_tick)) ! 0 / pre_capped_requests (projr (fst scarce_tick)) ! 0
     = X_managed_capacity (projr (fst scarce_tick)) / L_units_pre_capped_total (projr (fst scarce_tick)) \<and>
   final_limits (projr (fst scarce_tick)) ! 0 = 8 / 3 \<and>
   sum_list (final_limits (projr (fst scarce_tick))) = 8"
proof -
  have e: "run_distribution_locals default_config (clock_at 900) overloaded_engine 20 [4, 4, 4, 0] =
             (Inr (projr (fst scarce_tick)), snd scarce_tick)"
    using scarce_tick_eq by (cases scarce_tick) (simp add: scarce_tick_def)
  have a: "X_managed_capacity (projr (fst scarce_tick)) < L_units_pre_capped_total (projr (fst scarce_tick))"
    and b: "0 < L_units_pre_capped_total (projr (fst scarce_tick))"
    by (simp_all add: scarce_tick_eq)
  from proportional_scaling [OF e a b] a b show ?thesis
    by (simp add: scarce_tick_eq)
qed

text \<open>
  C6 (a non-positive derived duration moves the buffer to its extreme within one tick).
  The fallback of \<^verbatim>\<open>100.0 / T if T > 0 else 100.0\<close> is a rate of 100 points per minute, not
  a jump. With the delay and recovery durations configured as 0 and five seconds elapsed,
  a fresh buffer under overload decays from 100 to \<open>275/3\<close>, not to 0; and a buffer at 50
  (thirty seconds of that overload) recovers under a load below the limit to \<open>175/3\<close>, not
  to 100.
\<close>

theorem degenerate_duration_counterexample:
  "calculate_oa_timing zero_delay_config (5 / 4) = Inr (0, 5) \<and>
   oa (snd (update_oa_state zero_delay_config 5 5 4 fresh_oa (1 / 12))) = 275 / 3 \<and>
   oa (snd (update_oa_state zero_delay_config 5 5 4 fresh_oa (1 / 12))) \<noteq> 0 \<and>
   oa (snd (update_oa_state zero_delay_config 30 5 4 fresh_oa (1 / 2))) = 50 \<and>
   calculate_recovery_time zero_delay_config (3 / 4) = Inr 0 \<and>
   oa (snd (update_oa_state zero_delay_config 35 3 4
              (snd (update_oa_state zero_delay_config 30 5 4 fresh_oa (1 / 2))) (1 / 12))) = 175 / 3 \<and>
   oa (snd (update_oa_state zero_delay_config 35 3 4
              (snd (update_oa_state zero_delay_config 30 5 4 fresh_oa (1 / 2))) (1 / 12))) \<noteq> 100"
  by (simp add: tick_defs zero_delay_config_def fresh_oa_def)

text \<open>
  C6, amended. For a positive reference limit: when the load is at or below the limit and
  the recovery duration is not positive, the buffer rises at 100 points per minute,
  \<open>oa' = min 100 (oa + 100 * dt)\<close>; when the load is above the limit and the delay is not
  positive, it decays at 100 points per minute, \<open>oa' = max 0 (oa - 100 * dt)\<close>. It reaches
  the extreme in that tick only when \<open>dt\<close> is long enough.
\<close>

theorem degenerate_duration_rate:
  assumes "0 < reference_limit"
  shows "(load \<le> reference_limit \<and>
          calculate_recovery_time cfg (max 0 (min 1 (load / reference_limit))) = Inr T_recover \<and>
          T_recover \<le> 0 \<longrightarrow>
            oa (snd (update_oa_state cfg now load reference_limit st dt)) =
              min 100 (oa st + 100 * dt)) \<and>
         (reference_limit < load \<and>
          calculate_oa_timing cfg (load / reference_limit) = Inr (T_delay, T_ramp) \<and>
          T_delay \<le> 0 \<longrightarrow>
            oa (snd (update_oa_state cfg now load reference_limit st dt)) =
              max 0 (oa st - 100 * dt))"
proof (intro conjI impI)
  assume a: "load \<le> reference_limit \<and>
          calculate_recovery_time cfg (max 0 (min 1 (load / reference_limit))) = Inr T_recover \<and>
          T_recover \<le> 0"
  then have T: "calculate_recovery_time cfg (max 0 (min 1 (load / reference_limit))) = Inr T_recover"
    and r: "rate_per_min T_recover = Inr 100"
    by (simp_all add: rate_per_min_def)
  have f: "fdiv load reference_limit = Inr (load / reference_limit)"
    using assms by (simp add: fdiv_def)
  from a assms show "oa (snd (update_oa_state cfg now load reference_limit st dt)) =
              min 100 (oa st + 100 * dt)"
    unfolding update_oa_state_def f Let_def sum.case T r by simp
next
  assume a: "reference_limit < load \<and>
          calculate_oa_timing cfg (load / reference_limit) = Inr (T_delay, T_ramp) \<and>
          T_delay \<le> 0"
  then have T: "calculate_oa_timing cfg (load / reference_limit) = Inr (T_delay, T_ramp)"
    and r: "rate_per_min T_delay = Inr 100"
    by (simp_all add: rate_per_min_def)
  have f: "fdiv load reference_limit = Inr (load / reference_limit)"
    using assms by (simp add: fdiv_def)
  have u: "update_oa_state cfg now load reference_limit st dt =
         (if 0 < max 0 (oa st - 100 * dt)
          then (Inr (load / reference_limit), st\<lparr>oa := max 0 (oa st - 100 * dt), ramp_start := None\<rparr>)
          else ramp_down now (load / reference_limit) T_ramp (st\<lparr>oa := max 0 (oa st - 100 * dt)\<rparr>))"
    using a assms by (simp add: update_oa_state_def f Let_def T r)
  show "oa (snd (update_oa_state cfg now load reference_limit st dt)) = max 0 (oa st - 100 * dt)"
  proof (cases "0 < oa st - 100 * dt")
    case True
    then have "max 0 (oa st - 100 * dt) = oa st - 100 * dt" by simp
    with u True show ?thesis by simp
  next
    case False
    then have "max 0 (oa st - 100 * dt) = 0" by simp
    with u False show ?thesis by (simp add: ramp_down_oa)
  qed
qed

theorem degenerate_duration_rate_witness:
  "oa (snd (update_oa_state zero_delay_config 5 5 4 fresh_oa (1 / 12))) = 275 / 3 \<and>
   oa (snd (update_oa_state zero_delay_config 35 3 4 (fresh_oa\<lparr>oa := 50\<rparr>) (1 / 12))) = 175 / 3"
proof -
  have t: "calculate_oa_timing zero_delay_config (5 / 4) = Inr (0, 5)"
    and c: "calculate_recovery_time zero_delay_config (max 0 (min 1 (3 / 4))) = Inr 0"
    by (simp_all add: tick_defs zero_delay_config_def)
  from degenerate_duration_rate [where reference_limit = 4 and load = 5 and cfg = zero_delay_config
      and T_delay = 0 and T_ramp = 5 and st = fresh_oa and dt = "1 / 12" and now = 5] t
  have a: "oa (snd (update_oa_state zero_delay_config 5 5 4 fresh_oa (1 / 12))) = 275 / 3"
    by (simp add: fresh_oa_def)
  from degenerate_duration_rate [where reference_limit = 4 and load = 3 and cfg = zero_delay_config
      and T_recover = 0 and st = "fresh_oa\<lparr>oa := 50\<rparr>" and dt = "1 / 12" and now = 35] c
  have b: "oa (snd (update_oa_state zero_delay_config 35 3 4 (fresh_oa\<lparr>oa := 50\<rparr>) (1 / 12))) = 175 / 3"
    by (simp add: fresh_oa_def)
  from a b show ?thesis by simp
qed

text \<open>
  C7 (a tick with \<open>dt = 0\<close> changes no \<^verbatim>\<open>oa\<close>, \<^verbatim>\<open>ramp_start\<close> or \<^verbatim>\<open>init_factor\<close>). The recovery
  branch clears \<^verbatim>\<open>ramp_start\<close> whatever the elapsed time. The engine that has just started
  a ramp on the combined circuit (ramp start 600), ticked again at the same clock reading
  with the combined load back at 10 A, has its combined \<^verbatim>\<open>ramp_start\<close> cleared.
\<close>

theorem zero_dt_counterexample:
  "reachable default_config overloaded_engine \<and>
   clock_at 600 0 = last_update_time overloaded_engine \<and>
   combined_ramp_start overloaded_engine = Some 600 \<and>
   combined_ramp_start
     (snd (run_distribution default_config (clock_at 600) overloaded_engine 10 [4, 4, 4, 0])) = None"
  by (simp add: overloaded_engine_reachable)
     (simp add: overloaded_engine_eq tick_defs fresh_oa_def numeral_eq_Suc)

text \<open>
  C7, amended. A tick of a reachable engine with \<open>dt = 0\<close> (the first clock reading equal to
  \<^verbatim>\<open>_last_update_time\<close>) leaves the \<^verbatim>\<open>oa\<close> of all five entities unchanged, and leaves
  \<^verbatim>\<open>ramp_start\<close> and \<^verbatim>\<open>init_factor\<close> unchanged for every entity whose \<^verbatim>\<open>oa\<close> is above 0 before
  the tick.
\<close>

theorem zero_dt_tick:
  assumes "reachable cfg s" "clock 0 = last_update_time s"
    and "s' = snd (run_distribution cfg clock s c us)"
  shows "combined_oa s' = combined_oa s \<and>
         (0 < combined_oa s \<longrightarrow>
            combined_ramp_start s' = combined_ramp_start s \<and>
            combined_init_factor s' = combined_init_factor s) \<and>
         length (consumer_oa_states s') = length (consumer_oa_states s) \<and>
         (\<forall>i<length (consumer_oa_states s).
            oa (consumer_oa_states s' ! i) = oa (consumer_oa_states s ! i) \<and>
            (0 < oa (consumer_oa_states s ! i) \<longrightarrow>
               ramp_start (consumer_oa_states s' ! i) = ramp_start (consumer_oa_states s ! i) \<and>
               init_factor (consumer_oa_states s' ! i) = init_factor (consumer_oa_states s ! i)))"
proof -
  define R :: "OAState \<Rightarrow> OAState \<Rightarrow> bool" where "R = (\<lambda>st st'. oa st' = oa st \<and>
     (0 < oa st \<longrightarrow> ramp_start st' = ramp_start st \<and> init_factor st' = init_factor st))"
  from assms(1) have inv: "engine_inv s" by (rule reachable_inv)
  then have ci: "oa_inv (combined_state s)" and ui: "list_all oa_inv (consumer_oa_states s)"
    by (simp_all add: engine_inv_def)
  define u where "u = update_oa_state cfg (clock 1) c (max_combined_load cfg) (combined_state s) 0"
  have cu: "R (combined_state s) (snd u)"
    unfolding R_def u_def using update_oa_state_zero_dt [OF ci] by simp
  have "list_all oa_inv (snd (units_loop cfg clock 0 0 us (consumer_oa_states s))) \<and>
        list_all2 R (consumer_oa_states s) (snd (units_loop cfg clock 0 0 us (consumer_oa_states s)))"
  proof (rule units_loop_lift [OF _ _ _ ui])
    fix now load st assume "oa_inv st"
    then show "oa_inv (snd (update_oa_state cfg now load (max_individual_load cfg) st 0)) \<and>
               R st (snd (update_oa_state cfg now load (max_individual_load cfg) st 0))"
      unfolding R_def using update_oa_state_zero_dt [of st] update_oa_state_inv [of 0 st] by simp
  next
    fix st show "R st st" by (simp add: R_def)
  next
    fix a b c assume "R a b" "R b c" then show "R a c" by (auto simp add: R_def)
  qed
  then have lu: "list_all2 R (consumer_oa_states s) (snd (units_loop cfg clock 0 0 us (consumer_oa_states s)))"
    by simp
  have dt0: "(clock 0 - last_update_time s) / 60 = 0" by (simp add: assms(2))
  have st: "s' =
     (case fst u of
           Inl e \<Rightarrow> s\<lparr>last_update_time := clock 0\<rparr>
         | Inr f \<Rightarrow>
             s\<lparr>last_update_time := clock 0, combined_oa := oa (snd u),
               combined_ramp_start := ramp_start (snd u),
               combined_init_factor := init_factor (snd u),
               combined_ramp_dur := ramp_dur (snd u),
               consumer_oa_states := snd (units_loop cfg clock 0 0 us (consumer_oa_states s))\<rparr>)"
    unfolding assms(3) snd_run_distribution run_distribution_locals_state Let_def u_def dt0 ..
  show ?thesis
  proof (cases "fst u")
    case (Inl e)
    with st show ?thesis by simp
  next
    case (Inr f)
    with st cu lu show ?thesis
      by (simp add: R_def list_all2_conv_all_nth)
  qed
qed

theorem zero_dt_tick_witness:
  "reachable default_config overloaded_engine \<and>
   clock_at 600 0 = last_update_time overloaded_engine \<and>
   combined_oa (snd (run_distribution default_config (clock_at 600) overloaded_engine 10 [4, 4, 4, 0]))
     = combined_oa overloaded_engine \<and>
   0 < oa (consumer_oa_states overloaded_engine ! 0) \<and>
   ramp_start
     (consumer_oa_states
        (snd (run_distribution default_config (clock_at 600) overloaded_engine 10 [4, 4, 4, 0])) ! 0)
     = None"
proof -
  have l: "clock_at 600 0 = last_update_time overloaded_engine"
    by (simp add: overloaded_engine_eq clock_at_def)
  from zero_dt_tick [where clock = "clock_at 600" and c = 10 and us = "[4, 4, 4, 0]",
      OF overloaded_engine_reachable l refl]
    overloaded_engine_reachable l
  show ?thesis by (simp add: overloaded_engine_eq fresh_oa_def)
qed

text \<open>
  C2 (no internal clock sampling: the tick is a function of the state, the loads and the
  supplied \<open>dt\<close> and \<open>now\<close>). \<^verbatim>\<open>run_distribution\<close> takes no time argument: it reads
  \<^verbatim>\<open>datetime.now()\<close> itself, and each \<^verbatim>\<open>_update_oa_state\<close> reads it again. Two ticks from the
  same state with the same loads and the same first reading (so the same \<open>dt\<close>) whose later
  readings differ by a millisecond record different ramp starts.
\<close>

theorem clock_sampling_counterexample:
  "clock_at 600 0 = clock_then 1 600 (600 + 1 / 1000) 0 \<and>
   combined_ramp_start
     (snd (run_distribution default_config (clock_at 600) (init_engine 0) 20 [4, 4, 4, 0]))
     = Some 600 \<and>
   combined_ramp_start
     (snd (run_distribution default_config (clock_then 1 600 (600 + 1 / 1000)) (init_engine 0) 20
             [4, 4, 4, 0]))
     = Some (600 + 1 / 1000) \<and>
   snd (run_distribution default_config (clock_at 600) (init_engine 0) 20 [4, 4, 4, 0]) \<noteq>
   snd (run_distribution default_config (clock_then 1 600 (600 + 1 / 1000)) (init_engine 0) 20
          [4, 4, 4, 0])"
proof -
  have a: "combined_ramp_start
     (snd (run_distribution default_config (clock_at 600) (init_engine 0) 20 [4, 4, 4, 0]))
     = Some 600"
    by (simp add: tick_defs numeral_eq_Suc)
  have b: "combined_ramp_start
     (snd (run_distribution default_config (clock_then 1 600 (600 + 1 / 1000)) (init_engine 0) 20
             [4, 4, 4, 0]))
     = Some (600 + 1 / 1000)"
    by (simp add: tick_defs clock_then_def numeral_eq_Suc)
  have c: "clock_at 600 0 = clock_then 1 600 (600 + 1 / 1000) 0"
    by (simp add: clock_at_def clock_then_def)
  have d: "snd (run_distribution default_config (clock_at 600) (init_engine 0) 20 [4, 4, 4, 0]) \<noteq>
   snd (run_distribution default_config (clock_then 1 600 (600 + 1 / 1000)) (init_engine 0) 20
          [4, 4, 4, 0])"
  proof
    assume "snd (run_distribution default_config (clock_at 600) (init_engine 0) 20 [4, 4, 4, 0]) =
      snd (run_distribution default_config (clock_then 1 600 (600 + 1 / 1000)) (init_engine 0) 20
          [4, 4, 4, 0])"
    with a b have "Some (600::real) = Some (600 + 1 / 1000)" by simp
    then show False by simp
  qed
  from a b c d show ?thesis by blast
qed

text \<open>
  C2, amended. The tick is a deterministic function of the engine state, the load inputs
  and the wall-clock readings it samples itself: two invocations from equal states with
  equal loads whose clocks agree on the readings made during the tick (reading 0 by
  \<^verbatim>\<open>run_distribution\<close>, one by the combined update, one per unit) return equal results and
  equal successor states.
\<close>

theorem tick_determined_by_clock_readings:
  assumes "\<forall>k\<le>length us + 1. clock k = clock' k"
  shows "run_distribution cfg clock s c us = run_distribution cfg clock' s c us"
proof -
  have c0: "clock 0 = clock' 0" and c1: "clock 1 = clock' 1" using assms by simp_all
  have l: "units_loop cfg clock dt 0 us sts = units_loop cfg clock' dt 0 us sts" for dt sts
    using assms by (intro units_loop_clock_cong) simp
  have "run_distribution_locals cfg clock s c us = run_distribution_locals cfg clock' s c us"
    unfolding run_distribution_locals_def c0 c1 l ..
  then show ?thesis by (simp add: run_distribution_def)
qed

theorem tick_determined_by_clock_readings_witness:
  "clock_at 600 6 \<noteq> clock_then 6 600 0 6 \<and>
   run_distribution default_config (clock_at 600) (init_engine 0) 20 [4, 4, 4, 0] =
   run_distribution default_config (clock_then 6 600 0) (init_engine 0) 20 [4, 4, 4, 0]"
proof -
  have h: "\<forall>k\<le>length [4, 4, 4, 0 :: real] + 1. clock_at 600 k = clock_then 6 600 0 k"
    by (simp add: clock_at_def clock_then_def)
  have d: "clock_at 600 6 \<noteq> clock_then 6 600 0 6"
    by (simp add: clock_at_def clock_then_def)
  from tick_determined_by_clock_readings [OF h] d show ?thesis by simp
qed

text \<open>
  C8 (an unavailable combined reading skips the tick; an unavailable unit reading counts as
  0.0). A missing state object and the state \<^verbatim>\<open>unavailable\<close> both read as \<open>None\<close>. When the
  combined reading is \<open>None\<close>, \<^verbatim>\<open>async_run_controller\<close> returns before calling
  \<^verbatim>\<open>run_distribution\<close>: the engine and the published result are what they were. When it is
  a number \<open>c\<close>, the tick proceeds on \<open>c\<close> and the four gathered unit loads, in which a unit
  whose reading is \<open>None\<close> contributes 0 and every other unit its reading.
\<close>

theorem unavailable_readings:
  "get_float_state pyfloat None = None \<and>
   get_float_state pyfloat (Some \<lparr>state = STATE_UNAVAILABLE\<rparr>) = None \<and>
   (get_float_state pyfloat (states (entity_combined_load cfg)) = None \<longrightarrow>
      async_run_controller pyfloat cfg clock states hdata = (Halted, hdata)) \<and>
   (get_float_state pyfloat (states (entity_combined_load cfg)) = Some c \<longrightarrow>
      fst (async_run_controller pyfloat cfg clock states hdata) \<noteq> Halted \<and>
      manager (snd (async_run_controller pyfloat cfg clock states hdata)) =
        snd (run_distribution cfg clock (manager hdata) c (gather_units pyfloat cfg states))) \<and>
   length (gather_units pyfloat cfg states) = 4 \<and>
   (i < 4 \<and> get_float_state pyfloat (states (unit_keys cfg ! i)) = None \<longrightarrow>
      gather_units pyfloat cfg states ! i = 0) \<and>
   (i < 4 \<and> get_float_state pyfloat (states (unit_keys cfg ! i)) = Some load \<longrightarrow>
      gather_units pyfloat cfg states ! i = load)"
  by (auto simp add: get_float_state_def controller_halts controller_runs length_gather_units
        gather_units_nth)

theorem unavailable_readings_witness:
  "get_float_state sample_float (states_combined_unavailable (entity_combined_load default_config)) = None \<and>
   async_run_controller sample_float default_config (clock_at 5) states_combined_unavailable fresh_data
     = (Halted, fresh_data) \<and>
   get_float_state sample_float (states_unit_unavailable (entity_combined_load default_config)) = Some 17 \<and>
   fst (async_run_controller sample_float default_config (clock_at 5) states_unit_unavailable fresh_data)
     \<noteq> Halted \<and>
   get_float_state sample_float (states_unit_unavailable (unit_keys default_config ! 1)) = None \<and>
   get_float_state sample_float (states_unit_unavailable (unit_keys default_config ! 3)) = None \<and>
   gather_units sample_float default_config states_unit_unavailable = [7 / 2, 0, 7 / 2, 0]"
proof -
  have a: "get_float_state sample_float (states_combined_unavailable (entity_combined_load default_config)) = None"
    by (simp add: get_float_state_def states_combined_unavailable_def default_config_def
          STATE_UNAVAILABLE_def)
  have b: "get_float_state sample_float (states_unit_unavailable (entity_combined_load default_config)) = Some 17"
    by (simp add: get_float_state_def states_unit_unavailable_def default_config_def
          STATE_UNAVAILABLE_def STATE_UNKNOWN_def sample_float_def)
  have u1: "get_float_state sample_float (states_unit_unavailable (unit_keys default_config ! 1)) = None"
    by (simp add: get_float_state_def states_unit_unavailable_def default_config_def unit_keys_def
          STATE_UNAVAILABLE_def)
  have u3: "get_float_state sample_float (states_unit_unavailable (unit_keys default_config ! 3)) = None"
    by (simp add: get_float_state_def states_unit_unavailable_def default_config_def unit_keys_def)
  have u0: "get_float_state sample_float (states_unit_unavailable (unit_keys default_config ! 0)) = Some (7 / 2)"
    by (simp add: get_float_state_def states_unit_unavailable_def default_config_def unit_keys_def
          STATE_UNAVAILABLE_def STATE_UNKNOWN_def sample_float_def)
  have u2: "get_float_state sample_float (states_unit_unavailable (unit_keys default_config ! 2)) = Some (7 / 2)"
    by (simp add: get_float_state_def states_unit_unavailable_def default_config_def unit_keys_def
          STATE_UNAVAILABLE_def STATE_UNKNOWN_def sample_float_def)
  note t = unavailable_readings [where pyfloat = sample_float and cfg = default_config
      and clock = "clock_at 5" and hdata = fresh_data]
  from t [where states = states_combined_unavailable and c = 0 and i = 0 and load = 0] a
  have h: "async_run_controller sample_float default_config (clock_at 5) states_combined_unavailable fresh_data
     = (Halted, fresh_data)" by simp
  from t [where states = states_unit_unavailable and c = 17 and i = 1 and load = 0] b u1
  have r: "fst (async_run_controller sample_float default_config (clock_at 5) states_unit_unavailable fresh_data)
     \<noteq> Halted" and g1: "gather_units sample_float default_config states_unit_unavailable ! 1 = 0"
    and len: "length (gather_units sample_float default_config states_unit_unavailable) = 4"
    by simp_all
  from t [where states = states_unit_unavailable and c = 17 and i = 3 and load = 0] u3
  have g3: "gather_units sample_float default_config states_unit_unavailable ! 3 = 0" by simp
  from t [where states = states_unit_unavailable and c = 17 and i = 0 and load = "7 / 2"] u0
  have g0: "gather_units sample_float default_config states_unit_unavailable ! 0 = 7 / 2" by simp
  from t [where states = states_unit_unavailable and c = 17 and i = 2 and load = "7 / 2"] u2
  have g2: "gather_units sample_float default_config states_unit_unavailable ! 2 = 7 / 2" by simp
  have g: "gather_units sample_float default_config states_unit_unavailable = [7 / 2, 0, 7 / 2, 0]"
    using len g0 g1 g2 g3 by (auto simp add: list_eq_iff_nth_eq less_Suc_eq numeral_eq_Suc)
  from a h b r u1 u3 g show ?thesis by blast
qed

text \<open>
  C10 (a reading that is not a number is read as an unavailable one). When \<^verbatim>\<open>float\<close> raises
  on the state string \<open>v\<close>, \<^verbatim>\<open>get_float_state\<close> returns \<open>None\<close>, as it does for a missing
  state and for the state \<^verbatim>\<open>unknown\<close>; it returns a value and raises nothing. Such a state
  of the combined sensor makes the controller return without running the tick, the engine
  and the published result untouched; such a state of a unit sensor puts 0 in the gathered
  loads.
\<close>

theorem unparseable_reading:
  assumes "pyfloat v = None"
  shows "get_float_state pyfloat (Some \<lparr>state = v\<rparr>) = None \<and>
         get_float_state pyfloat (Some \<lparr>state = v\<rparr>) = get_float_state pyfloat None \<and>
         get_float_state pyfloat (Some \<lparr>state = STATE_UNKNOWN\<rparr>) = None \<and>
         (states (entity_combined_load cfg) = Some \<lparr>state = v\<rparr> \<longrightarrow>
            async_run_controller pyfloat cfg clock states hdata = (Halted, hdata)) \<and>
         (i < 4 \<and> states (unit_keys cfg ! i) = Some \<lparr>state = v\<rparr> \<longrightarrow>
            gather_units pyfloat cfg states ! i = 0)"
proof -
  have n: "get_float_state pyfloat (Some \<lparr>state = v\<rparr>) = None"
    using assms by (simp add: get_float_state_def)
  then show ?thesis
    by (auto simp add: controller_halts gather_units_nth) (simp_all add: get_float_state_def)
qed

theorem unparseable_reading_witness:
  "sample_float ''seventeen'' = None \<and>
   states_not_numeric (entity_combined_load default_config) = Some \<lparr>state = ''seventeen''\<rparr> \<and>
   async_run_controller sample_float default_config (clock_at 5) states_not_numeric fresh_data
     = (Halted, fresh_data) \<and>
   sample_float ''n/a'' = None \<and>
   states_not_numeric (unit_keys default_config ! 1) = Some \<lparr>state = ''n/a''\<rparr> \<and>
   gather_units sample_float default_config states_not_numeric ! 1 = 0"
proof -
  have a: "sample_float ''seventeen'' = None" and b: "sample_float ''n/a'' = None"
    by (simp_all add: sample_float_def)
  have c: "states_not_numeric (entity_combined_load default_config) = Some \<lparr>state = ''seventeen''\<rparr>"
    by (simp add: states_not_numeric_def default_config_def)
  have d: "states_not_numeric (unit_keys default_config ! 1) = Some \<lparr>state = ''n/a''\<rparr>"
    by (simp add: states_not_numeric_def default_config_def unit_keys_def)
  from unparseable_reading [where pyfloat = sample_float and v = "''seventeen''"
      and states = states_not_numeric and cfg = default_config
      and clock = "clock_at 5" and hdata = fresh_data and i = 0, OF a] c
  have h: "async_run_controller sample_float default_config (clock_at 5) states_not_numeric fresh_data
     = (Halted, fresh_data)" by simp
  from unparseable_reading [where pyfloat = sample_float and v = "''n/a''"
      and states = states_not_numeric and cfg = default_config
      and clock = "clock_at 5" and hdata = fresh_data and i = 1, OF b] d
  have g: "gather_units sample_float default_config states_not_numeric ! 1 = 0" by simp
  from a b c d h g show ?thesis by blast
qed

end
